theory Spec2Isabelle
  imports Main "HOL-Library.AList"
begin

section \<open>JavaScript string helpers\<close>

text \<open>
  Strings are character lists.  \<open>startsWith\<close> and \<open>includesStr\<close> are the methods
  \<open>startsWith\<close> and \<open>includes\<close> of \<open>String.prototype\<close> the gateway calls;
  \<open>toLowerChar\<close> is only needed for the way Express compares a request path with a
  route (case-insensitively).
\<close>

fun startsWith :: "string \<Rightarrow> string \<Rightarrow> bool" where
  "startsWith s [] = True"
| "startsWith [] (p # ps) = False"
| "startsWith (c # s) (p # ps) = (c = p \<and> startsWith s ps)"

fun includesStr :: "string \<Rightarrow> string \<Rightarrow> bool" where
  "includesStr [] p = (p = [])"
| "includesStr (c # s) p = (startsWith (c # s) p \<or> includesStr s p)"

definition isDigit :: "char \<Rightarrow> bool" where
  "isDigit c = (c \<in> set ''0123456789'')"

definition toLowerChar :: "char \<Rightarrow> char" where
  "toLowerChar c =
     (if 65 \<le> (of_char c :: nat) \<and> (of_char c :: nat) \<le> 90
      then char_of ((of_char c :: nat) + 32) else c)"

definition toLowerCase :: "string \<Rightarrow> string" where
  "toLowerCase s = map toLowerChar s"

section \<open>The admission gate (the Express application)\<close>

subsection \<open>Requests, sessions and outcomes\<close>

text \<open>
  A session is the bag of fields the handlers read and write on \<open>req.session\<close>.  A flag
  that is \<open>undefined\<close> (never set, or removed with \<open>delete\<close>) is \<open>False\<close>; a string
  field that is \<open>undefined\<close> is \<open>None\<close>.
\<close>

record session =
  authenticated :: bool
  passwordVerified :: bool
  username :: "string option"
  mfaSetupId :: "string option"
  user :: "string option"

definition freshSession :: session where
  "freshSession = \<lparr> authenticated = False, passwordVerified = False, username = None,
     mfaSetupId = None, user = None \<rparr>"

datatype http_method = GET | HEAD | POST | PUT | PATCH | DELETE | OPTIONS

text \<open>
  The part of a request the routing reads: its method, \<open>req.path\<close>, the session that
  \<open>express-session\<close> attached, and the \<open>Accept\<close> and \<open>Upgrade\<close> headers.
\<close>

record request =
  reqMethod :: http_method
  reqPath :: string
  reqSession :: session
  reqAccept :: "string option"
  reqUpgrade :: "string option"

text \<open>
  What happens to a request: it is answered by one of the gateway's own routes
  (\<open>Local\<close>), relayed to the upstream target (\<open>Forward\<close>), redirected, refused with
  status 401 (with the JSON body, or with an empty body), or it falls off the end of the
  middleware stack (\<open>NotFound\<close>, Express's 404).
\<close>

datatype outcome =
    Local
  | Forward
  | Redirect string
  | UnauthorizedJson
  | UnauthorizedEnd
  | NotFound

subsection \<open>Routes that are answered locally\<close>

text \<open>
  Express matches a route path case-insensitively and tolerates one trailing slash; a
  \<open>get\<close> route also answers \<open>HEAD\<close>.
\<close>

definition routeMatch :: "string \<Rightarrow> string \<Rightarrow> bool" where
  "routeMatch pat p = (toLowerCase p = pat \<or> toLowerCase p = pat @ ''/'')"

definition methodMatch :: "http_method \<Rightarrow> http_method \<Rightarrow> bool" where
  "methodMatch routeM m = (m = routeM \<or> (routeM = GET \<and> m = HEAD))"

text \<open>
  \<open>app.use('/auth', auth)\<close>: the router sees the path with the mount point removed,
  provided the path is the mount point or continues with a slash.
\<close>

definition mountRest :: "string \<Rightarrow> string \<Rightarrow> string option" where
  "mountRest mount p =
     (let n = length mount; rest = drop n p in
      if toLowerCase (take n p) = mount \<and> (rest = [] \<or> hd rest = CHR ''/'')
      then Some (if rest = [] then ''/'' else rest)
      else None)"

definition authRoutes :: "(http_method \<times> string) list" where
  "authRoutes =
     [(GET, ''/login''), (POST, ''/login''),
      (GET, ''/mfa-setup''), (POST, ''/mfa-setup''),
      (GET, ''/mfa-verify''), (POST, ''/mfa-verify''),
      (GET, ''/mfa-debug''), (POST, ''/mfa-cleanup''), (POST, ''/mfa-reset''),
      (POST, ''/logout'')]"

text \<open>
  The auth router answers a request when one of its routes matches the path and the
  method.  An \<open>OPTIONS\<close> request on the path of a route is answered by the router
  itself, with status 200 and the list of the methods allowed there.
\<close>

definition authRouterHandles :: "request \<Rightarrow> bool" where
  "authRouterHandles r =
     (case mountRest ''/auth'' (reqPath r) of
        None \<Rightarrow> False
      | Some rest \<Rightarrow>
          list_ex (\<lambda>(m, pat). routeMatch pat rest
                      \<and> (methodMatch m (reqMethod r) \<or> reqMethod r = OPTIONS))
            authRoutes)"

definition statusRouteHandles :: "request \<Rightarrow> bool" where
  "statusRouteHandles r =
     (methodMatch GET (reqMethod r) \<and>
      (routeMatch ''/health'' (reqPath r) \<or> routeMatch ''/proxy-status'' (reqPath r)))"

text \<open>
  An \<open>OPTIONS\<close> request on the path of a status route is not answered by the route; the
  application remembers the methods of the route and answers with them (status 200) if
  the request falls off the end of the stack.
\<close>

definition optionsOnStatusRoute :: "request \<Rightarrow> bool" where
  "optionsOnStatusRoute r =
     (reqMethod r = OPTIONS \<and>
      (routeMatch ''/health'' (reqPath r) \<or> routeMatch ''/proxy-status'' (reqPath r)))"

subsection \<open>The two gate middlewares and the proxy\<close>

text \<open>
  The first \<open>app.use('/', ...)\<close>: a request whose session is not authenticated and whose
  path does not start with \<open>/auth\<close> is redirected to the login page; \<open>None\<close> is
  \<open>next()\<close>.
\<close>

definition authRedirect :: "request \<Rightarrow> outcome option" where
  "authRedirect r =
     (if \<not> authenticated (reqSession r) \<and> \<not> startsWith (reqPath r) ''/auth''
      then Some (Redirect ''/auth/login'')
      else None)"

definition defaultPublicPaths :: "string list" where
  "defaultPublicPaths =
     [''/api/auth'', ''/login'', ''/register'', ''/public'', ''/assets'', ''/static'',
      ''/favicon.ico'', ''/robots.txt'']"

definition isPublicPath :: "string list \<Rightarrow> string \<Rightarrow> bool" where
  "isPublicPath publicPaths p =
     list_ex (\<lambda>publicPath. p = publicPath \<or> startsWith p (publicPath @ ''/'')) publicPaths"

text \<open>
  The second \<open>app.use('/', ...)\<close>, the "smart proxy" gate, in the order of the source:
  local paths are skipped, public paths pass, an unauthenticated session is refused (JSON
  clients with 401 and a body, WebSocket upgrades with a bare 401, everything else with a
  redirect), an authenticated session passes.  \<open>None\<close> is \<open>next()\<close>, which hands the
  request to the proxy middleware.
\<close>

definition smartProxyGate :: "string list \<Rightarrow> request \<Rightarrow> outcome option" where
  "smartProxyGate publicPaths r =
     (if startsWith (reqPath r) ''/auth/'' \<or> reqPath r = ''/health''
           \<or> reqPath r = ''/proxy-status''
      then None
      else if isPublicPath publicPaths (reqPath r) then None
      else if \<not> authenticated (reqSession r) then
        (if (case reqAccept r of None \<Rightarrow> False
             | Some a \<Rightarrow> a \<noteq> [] \<and> includesStr a ''application/json'')
         then Some UnauthorizedJson
         else if reqUpgrade r = Some ''websocket'' then Some UnauthorizedEnd
         else Some (Redirect ''/auth/login''))
      else None)"

text \<open>The \<open>pathFilter\<close> option given to \<open>createProxyMiddleware\<close>.\<close>

definition pathFilter :: "string \<Rightarrow> bool" where
  "pathFilter pathname =
     (if startsWith pathname ''/auth/'' then False
      else if pathname = ''/health'' \<or> pathname = ''/proxy-status'' then False
      else True)"

text \<open>
  The proxy middleware relays a request its path filter accepts and calls \<open>next()\<close> on
  any other; nothing is mounted after it, so such a request ends as a 404.
\<close>

definition proxyMiddleware :: "request \<Rightarrow> outcome" where
  "proxyMiddleware r = (if pathFilter (reqPath r) then Forward else NotFound)"

text \<open>
  The stack in the order the application mounts it: the two status routes, the auth
  router, the redirect middleware, the smart proxy gate, the proxy; a request that falls
  off the end is answered with 404, or with the allowed methods when it is an
  \<open>OPTIONS\<close> request on the path of a status route.  (The helmet, session
  and body-parsing middlewares in front of it are left out; a body parser can refuse a
  malformed body of a \<open>POST\<close>, \<open>PUT\<close> or \<open>PATCH\<close> request before any of this
  runs.  The static file handler below \<open>/auth/static\<close> serves a directory the image
  does not ship, so it always calls \<open>next()\<close>.)
\<close>

definition handleRequest :: "string list \<Rightarrow> request \<Rightarrow> outcome" where
  "handleRequest publicPaths r =
     (if statusRouteHandles r then Local
      else if authRouterHandles r then Local
      else case authRedirect r of
        Some out \<Rightarrow> out
      | None \<Rightarrow>
          (case smartProxyGate publicPaths r of
             Some out \<Rightarrow> out
           | None \<Rightarrow>
               (case proxyMiddleware r of
                  NotFound \<Rightarrow> if optionsOnStatusRoute r then Local else NotFound
                | out \<Rightarrow> out)))"

text \<open>
  \<open>server.on('upgrade', ...)\<close>: Node hands a WebSocket handshake to this listener
  instead of the Express application.  The listener logs and calls
  \<open>proxyMiddleware.upgrade\<close>, which relays the handshake when the path filter accepts
  the path; a handshake it does not relay is left unanswered (\<open>NotFound\<close> here).  No
  middleware runs, so no session is consulted.
\<close>

definition handleUpgrade :: "request \<Rightarrow> outcome" where
  "handleUpgrade r = (if pathFilter (reqPath r) then Forward else NotFound)"

section \<open>The TOTP engine\<close>

text \<open>
  Modelled from the spec: the functions \<open>speakeasy.totp\<close> and \<open>speakeasy.totp.verify\<close>
  belong to the \<open>speakeasy\<close> package, which is not among the sources; they are written
  here after section 4.1 of the specification.  The time step is the timestamp in seconds
  divided by 30 (rounded down); \<open>totp\<close> derives the code of a step, six decimal digits
  padded with zeros; \<open>totpVerify\<close> recomputes the code for every step from
  \<open>step - window\<close> to \<open>step + window\<close> and accepts when one of them is the candidate.

  The keyed hash is a parameter \<open>H\<close> of these functions: \<open>H secret counter\<close> stands
  for the number RFC 4226 extracts from the HMAC-SHA1 of the counter under the decoded
  secret.  The general statements below hold for every such function; the function itself
  is defined further down, for the examples.  The counter is an integer, since
  verification in the first minute reaches below step 0.
\<close>

type_synonym hmac = "string \<Rightarrow> int \<Rightarrow> nat"

definition digitChar :: "nat \<Rightarrow> char" where
  "digitChar d = ''0123456789'' ! d"

definition sixDigits :: "nat \<Rightarrow> string" where
  "sixDigits n = map (\<lambda>i. digitChar ((n div 10 ^ i) mod 10)) [5, 4, 3, 2, 1, 0]"

definition hotp :: "hmac \<Rightarrow> string \<Rightarrow> int \<Rightarrow> string" where
  "hotp H secret counter = sixDigits (H secret counter mod 1000000)"

definition timeStep :: "nat \<Rightarrow> int" where
  "timeStep t = int (t div 30)"

definition totp :: "hmac \<Rightarrow> string \<Rightarrow> nat \<Rightarrow> string" where
  "totp H secret t = hotp H secret (timeStep t)"

definition totpVerify :: "hmac \<Rightarrow> string \<Rightarrow> string \<Rightarrow> nat \<Rightarrow> nat \<Rightarrow> bool" where
  "totpVerify H secret token t window =
     list_ex (\<lambda>c. hotp H secret c = token)
       [timeStep t - int window .. timeStep t + int window]"

subsection \<open>The keyed hash\<close>

text \<open>
  Modelled from the spec: the hash the engine uses is not among the sources either.
  Section 4.1 of the specification names it: the code is computed with HMAC-SHA1 over the
  step counter, keyed by the base32-decoded secret, and truncated as in RFC 6238.  The
  definitions follow RFC 3174 (SHA-1), RFC 2104 (HMAC), RFC 4226 (the counter as eight
  bytes, the dynamic truncation) and RFC 4648 (base32); a character outside the base32
  alphabet is skipped.  Bytes and 32-bit words are integers, with the reduction modulo
  \<open>2 ^ 32\<close> written out.  \<open>hmacSha1Code\<close> is the function that stands behind the
  parameter \<open>H\<close>.
\<close>

unbundle bit_operations_syntax

definition m32 :: "int \<Rightarrow> int" where
  "m32 x = x mod 4294967296"

definition rotl :: "nat \<Rightarrow> int \<Rightarrow> int" where
  "rotl n w = m32 (w * 2 ^ n) + w div 2 ^ (32 - n)"

definition not32 :: "int \<Rightarrow> int" where
  "not32 x = 4294967295 - x"

definition fCh :: "int \<Rightarrow> int \<Rightarrow> int \<Rightarrow> int" where
  "fCh b c d = (b AND c) OR (not32 b AND d)"

definition fParity :: "int \<Rightarrow> int \<Rightarrow> int \<Rightarrow> int" where
  "fParity b c d = b XOR c XOR d"

definition fMaj :: "int \<Rightarrow> int \<Rightarrow> int \<Rightarrow> int" where
  "fMaj b c d = (b AND c) OR (b AND d) OR (c AND d)"

text \<open>The message schedule, built with the most recent word first; the first argument
  counts the words still to be added.\<close>

fun extendSchedule :: "unit list \<Rightarrow> int list \<Rightarrow> int list" where
  "extendSchedule [] r = r"
| "extendSchedule (u # fuel) r =
     extendSchedule fuel (rotl 1 (r ! 2 XOR r ! 7 XOR r ! 13 XOR r ! 15) # r)"

definition schedule :: "int list \<Rightarrow> int list" where
  "schedule block = rev (extendSchedule (replicate 64 ()) (rev block))"

type_synonym sha_state = "int \<times> int \<times> int \<times> int \<times> int"

fun sha1Rounds ::
  "(int \<Rightarrow> int \<Rightarrow> int \<Rightarrow> int) \<Rightarrow> int \<Rightarrow> int list \<Rightarrow> sha_state \<Rightarrow> sha_state" where
  "sha1Rounds f k [] s = s"
| "sha1Rounds f k (w # ws) (a, b, c, d, e) =
     sha1Rounds f k ws (m32 (rotl 5 a + f b c d + e + w + k), a, rotl 30 b, c, d)"

definition compress :: "sha_state \<Rightarrow> int list \<Rightarrow> sha_state" where
  "compress h block =
     (let ws = schedule block;
          s1 = sha1Rounds fCh 0x5A827999 (take 20 ws) h;
          s2 = sha1Rounds fParity 0x6ED9EBA1 (take 20 (drop 20 ws)) s1;
          s3 = sha1Rounds fMaj 0x8F1BBCDC (take 20 (drop 40 ws)) s2;
          s4 = sha1Rounds fParity 0xCA62C1D6 (drop 60 ws) s3
      in case h of (h0, h1, h2, h3, h4) \<Rightarrow>
           (case s4 of (a, b, c, d, e) \<Rightarrow>
              (m32 (h0 + a), m32 (h1 + b), m32 (h2 + c), m32 (h3 + d), m32 (h4 + e))))"

definition sha1Init :: sha_state where
  "sha1Init = (0x67452301, 0xEFCDAB89, 0x98BADCFE, 0x10325476, 0xC3D2E1F0)"

fun ilength :: "'a list \<Rightarrow> int" where
  "ilength [] = 0"
| "ilength (x # xs) = 1 + ilength xs"

definition bigEndian8 :: "int \<Rightarrow> int list" where
  "bigEndian8 n = map (\<lambda>i. (n div 256 ^ i) mod 256) [7, 6, 5, 4, 3, 2, 1, 0]"

definition sha1Pad :: "int list \<Rightarrow> int list" where
  "sha1Pad msg = msg @ [128] @ replicate (nat ((55 - ilength msg) mod 64)) 0
                   @ bigEndian8 (8 * ilength msg)"

fun toWords :: "int list \<Rightarrow> int list" where
  "toWords (a # b # c # d # rest) = (a * 16777216 + b * 65536 + c * 256 + d) # toWords rest"
| "toWords rest = []"

fun chunks16 :: "int list \<Rightarrow> int list list" where
  "chunks16 (w0 # w1 # w2 # w3 # w4 # w5 # w6 # w7 # w8 # w9 # w10 # w11 # w12 # w13 # w14
      # w15 # rest) =
     [w0, w1, w2, w3, w4, w5, w6, w7, w8, w9, w10, w11, w12, w13, w14, w15] # chunks16 rest"
| "chunks16 rest = []"

definition wordBytes :: "int \<Rightarrow> int list" where
  "wordBytes w = [w div 16777216, (w div 65536) mod 256, (w div 256) mod 256, w mod 256]"

definition sha1 :: "int list \<Rightarrow> int list" where
  "sha1 msg =
     (case foldl compress sha1Init (chunks16 (toWords (sha1Pad msg))) of
        (a, b, c, d, e) \<Rightarrow> wordBytes a @ wordBytes b @ wordBytes c @ wordBytes d @ wordBytes e)"

definition hmacSha1 :: "int list \<Rightarrow> int list \<Rightarrow> int list" where
  "hmacSha1 key msg =
     (let key' = (if 64 < ilength key then sha1 key else key);
          block = key' @ replicate (nat (64 - ilength key')) 0
      in sha1 (map (\<lambda>b. b XOR 92) block @ sha1 (map (\<lambda>b. b XOR 54) block @ msg)))"

definition base32Value :: "char \<Rightarrow> int option" where
  "base32Value c =
     (let x = (of_char c :: int) in
      if 65 \<le> x \<and> x \<le> 90 then Some (x - 65)
      else if 97 \<le> x \<and> x \<le> 122 then Some (x - 97)
      else if 50 \<le> x \<and> x \<le> 55 then Some (x - 24)
      else None)"

text \<open>\<open>base32Bytes acc n\<close>: \<open>acc\<close> holds the \<open>n\<close> bits read that do not fill a byte
  yet.\<close>

fun base32Bytes :: "int \<Rightarrow> int \<Rightarrow> string \<Rightarrow> int list" where
  "base32Bytes acc n [] = []"
| "base32Bytes acc n (c # cs) =
     (case base32Value c of
        None \<Rightarrow> base32Bytes acc n cs
      | Some v \<Rightarrow>
          if 3 \<le> n then ((acc * 32 + v) div 2 ^ nat (n - 3))
                          # base32Bytes ((acc * 32 + v) mod 2 ^ nat (n - 3)) (n - 3) cs
          else base32Bytes (acc * 32 + v) (n + 5) cs)"

definition base32Decode :: "string \<Rightarrow> int list" where
  "base32Decode s = base32Bytes 0 0 s"

definition dynamicTruncation :: "int list \<Rightarrow> int" where
  "dynamicTruncation d =
     (let off = nat ((d ! 19) AND 15)
      in ((d ! off) AND 127) * 16777216 + (d ! (off + 1)) * 65536
           + (d ! (off + 2)) * 256 + d ! (off + 3))"

definition hmacSha1Code :: hmac where
  "hmacSha1Code secret counter =
     nat (dynamicTruncation (hmacSha1 (base32Decode secret) (bigEndian8 counter)))"

section \<open>The MFA manager\<close>

subsection \<open>State\<close>

text \<open>
  \<open>pendingSetups\<close> and \<open>userSecrets\<close> are JavaScript \<open>Map\<close>s: association lists in
  insertion order, read with \<open>map_of\<close>, written with \<open>AList.update\<close> (which, like
  \<open>Map.set\<close>, replaces the value of a key that is present where it stands and appends a
  new key) and \<open>AList.delete\<close>.  The fields of a pending setup carry the prefix
  \<open>setup\<close>, since \<open>username\<close> is a session field already.

  \<open>timers\<close> holds the callbacks registered with \<open>setTimeout\<close> that have not run yet:
  the time (in milliseconds) each is due and the setup id its closure deletes.
\<close>

record pending_setup =
  setupUsername :: string
  setupSecret :: string
  setupTimestamp :: nat

record mfa_state =
  pendingSetups :: "(string \<times> pending_setup) list"
  userSecrets :: "(string \<times> string) list"
  timers :: "(nat \<times> string) list"

definition emptyState :: mfa_state where
  "emptyState = \<lparr> pendingSetups = [], userSecrets = [], timers = [] \<rparr>"

text \<open>Calls into the TOTP engine, recorded in the order they are made.\<close>

datatype lib_call =
    TotpVerify string string nat nat
  | TotpGenerate string nat

datatype js_error = TypeError

text \<open>The object \<open>completeMFASetup\<close> returns: \<open>{success: true}\<close> or
  \<open>{success: false, error: ...}\<close>.\<close>

datatype setup_outcome = Success | Failure string

text \<open>What \<open>speakeasy.generateSecret\<close> hands back, as far as it is used.\<close>

record generated_secret =
  base32 :: string
  otpauth_url :: string

record setup_info =
  infoSetupId :: string
  infoSecret :: string
  infoQrCodeUrl :: string

definition setupTTL :: nat where
  "setupTTL = 30 * 60 * 1000"

subsection \<open>Operations\<close>

text \<open>\<open>token.replace(/\D/g, '')\<close>: every character that is not a decimal digit is removed.\<close>

definition stripNonDigits :: "string \<Rightarrow> string" where
  "stripNonDigits token = filter isDigit token"

text \<open>
  \<open>cleanupUserSetups\<close>: the ids of the user's setups are collected first, then each is
  deleted; the number of ids is returned.
\<close>

definition cleanupUserSetups :: "string \<Rightarrow> mfa_state \<Rightarrow> nat \<times> mfa_state" where
  "cleanupUserSetups uname st =
     (let toDelete = map fst (filter (\<lambda>(setupId, setup). setupUsername setup = uname)
                                (pendingSetups st))
      in (length toDelete,
          st\<lparr> pendingSetups := fold AList.delete toDelete (pendingSetups st) \<rparr>))"

text \<open>
  \<open>generateSecret\<close>.  The random secret and the fresh UUID come from outside
  (\<open>speakeasy.generateSecret\<close>, \<open>uuidv4\<close>) and are arguments here, as is the reading
  \<open>now\<close> of \<open>Date.now()\<close>.  The \<open>setTimeout\<close> call adds a timer due 30 minutes later.
\<close>

definition generateSecret ::
  "nat \<Rightarrow> string \<Rightarrow> generated_secret \<Rightarrow> string \<Rightarrow> mfa_state \<Rightarrow> setup_info \<times> mfa_state" where
  "generateSecret now setupId secret uname st =
     (let (cleanedCount, st1) = cleanupUserSetups uname st;
          st2 = st1\<lparr> pendingSetups :=
                  AList.update setupId
                    \<lparr> setupUsername = uname, setupSecret = base32 secret,
                      setupTimestamp = now \<rparr>
                    (pendingSetups st1) \<rparr>;
          st3 = st2\<lparr> timers := timers st2 @ [(now + setupTTL, setupId)] \<rparr>
      in (\<lparr> infoSetupId = setupId, infoSecret = base32 secret,
             infoQrCodeUrl = otpauth_url secret \<rparr>, st3))"

text \<open>
  \<open>verifyToken\<close>.  A missing secret and the empty string are both falsy.  The token is
  \<open>None\<close> when the caller passes \<open>undefined\<close>; \<open>undefined.replace\<close> raises a
  \<open>TypeError\<close>.  The function never writes to the state; it is returned so that this can
  be stated.  After the verification the function computes the expected code once more
  for its log entry.
\<close>

definition verifyToken ::
  "hmac \<Rightarrow> nat \<Rightarrow> mfa_state \<Rightarrow> string \<Rightarrow> string option
     \<Rightarrow> js_error + (bool \<times> mfa_state \<times> lib_call list)" where
  "verifyToken H now st uname token =
     (case map_of (userSecrets st) uname of
        None \<Rightarrow> Inr (False, st, [])
      | Some secret \<Rightarrow>
          if secret = [] then Inr (False, st, [])
          else (case token of
             None \<Rightarrow> Inl TypeError
           | Some tok \<Rightarrow>
               let cleanToken = stripNonDigits tok in
               if length cleanToken \<noteq> 6 then Inr (False, st, [])
               else
                 let utcTime = now div 1000;
                     verified = totpVerify H secret cleanToken utcTime 2
                 in Inr (verified, st,
                      [TotpVerify secret cleanToken utcTime 2, TotpGenerate secret utcTime])))"

text \<open>
  \<open>completeMFASetup\<close>.  On success the candidate secret is stored under the setup's
  username and the pending setup is deleted.  (\<open>saveToFile\<close> then writes the secrets to
  disk and catches its own failures; it changes nothing in memory.)
\<close>

definition completeMFASetup ::
  "hmac \<Rightarrow> nat \<Rightarrow> mfa_state \<Rightarrow> string \<Rightarrow> string option
     \<Rightarrow> js_error + (setup_outcome \<times> mfa_state \<times> lib_call list)" where
  "completeMFASetup H now st setupId token =
     (case map_of (pendingSetups st) setupId of
        None \<Rightarrow> Inr (Failure ''Invalid or expired setup'', st, [])
      | Some setup \<Rightarrow>
          (case token of
             None \<Rightarrow> Inl TypeError
           | Some tok \<Rightarrow>
               let cleanToken = stripNonDigits tok in
               if length cleanToken \<noteq> 6 then Inr (Failure ''Token must be 6 digits'', st, [])
               else
                 let utcTime = now div 1000;
                     verified = totpVerify H (setupSecret setup) cleanToken utcTime 2
                 in if \<not> verified then
                      Inr (Failure
                            ''Invalid token - please check your authenticator app time sync'',
                           st,
                           [TotpVerify (setupSecret setup) cleanToken utcTime 2,
                            TotpGenerate (setupSecret setup) utcTime])
                    else
                      Inr (Success,
                           st\<lparr> userSecrets :=
                                 AList.update (setupUsername setup) (setupSecret setup)
                                   (userSecrets st),
                               pendingSetups := AList.delete setupId (pendingSetups st) \<rparr>,
                           [TotpVerify (setupSecret setup) cleanToken utcTime 2])))"

definition hasMFAEnabled :: "mfa_state \<Rightarrow> string \<Rightarrow> bool" where
  "hasMFAEnabled st uname = (map_of (userSecrets st) uname \<noteq> None)"

definition resetMFA :: "string \<Rightarrow> mfa_state \<Rightarrow> bool \<times> mfa_state" where
  "resetMFA uname st =
     (hasMFAEnabled st uname, st\<lparr> userSecrets := AList.delete uname (userSecrets st) \<rparr>)"

text \<open>\<open>generateCurrentToken\<close>: the code of the current step.\<close>

definition generateCurrentToken :: "hmac \<Rightarrow> nat \<Rightarrow> string \<Rightarrow> string" where
  "generateCurrentToken H now secret = totp H secret (now div 1000)"

subsection \<open>Timers\<close>

text \<open>
  The callback \<open>generateSecret\<close> registers deletes its setup id.  \<open>fireTimers now\<close> runs
  every callback that is due at \<open>now\<close>, in the order of registration, and forgets it.
\<close>

definition fireTimers :: "nat \<Rightarrow> mfa_state \<Rightarrow> mfa_state" where
  "fireTimers now st =
     st\<lparr> pendingSetups :=
           fold AList.delete (map snd (filter (\<lambda>(due, setupId). due \<le> now) (timers st)))
             (pendingSetups st),
         timers := filter (\<lambda>(due, setupId). \<not> due \<le> now) (timers st) \<rparr>"

text \<open>
  The calls that reach the manager, each with the inputs it takes from outside.
  \<open>applyEvent\<close> is the state after a call made at time \<open>now\<close> by an event loop that
  is on time: the callbacks due by \<open>now\<close> have run before the call.  A call that raises
  leaves the state as the due timers left it.
\<close>

datatype event =
    EvGenerate string generated_secret string
  | EvComplete string "string option"
  | EvCleanup string
  | EvVerify string "string option"
  | EvReset string

fun applyEvent :: "hmac \<Rightarrow> nat \<Rightarrow> event \<Rightarrow> mfa_state \<Rightarrow> mfa_state" where
  "applyEvent H now (EvGenerate setupId secret uname) st =
     snd (generateSecret now setupId secret uname (fireTimers now st))"
| "applyEvent H now (EvComplete setupId token) st =
     (case completeMFASetup H now (fireTimers now st) setupId token of
        Inl e \<Rightarrow> fireTimers now st
      | Inr (res, st', calls) \<Rightarrow> st')"
| "applyEvent H now (EvCleanup uname) st = snd (cleanupUserSetups uname (fireTimers now st))"
| "applyEvent H now (EvVerify uname token) st =
     (case verifyToken H now (fireTimers now st) uname token of
        Inl e \<Rightarrow> fireTimers now st
      | Inr (res, st', calls) \<Rightarrow> st')"
| "applyEvent H now (EvReset uname) st = snd (resetMFA uname (fireTimers now st))"

fun run :: "hmac \<Rightarrow> (nat \<times> event) list \<Rightarrow> mfa_state \<Rightarrow> mfa_state" where
  "run H [] st = st"
| "run H ((now, ev) # evs) st = run H evs (applyEvent H now ev st)"

text \<open>
  Node runs a timer callback no sooner than its delay, and as much later as the event
  loop is busy.  A trace of steps keeps the two apart: \<open>Call now ev\<close> is a call to the
  manager at the clock reading \<open>now\<close>, made on the state as it stands (\<open>applyCall\<close>);
  \<open>TimersRun t\<close> is a run of the timer phase that executes the callbacks due by \<open>t\<close>.
  A call that raises leaves the state as it was.
\<close>

fun applyCall :: "hmac \<Rightarrow> nat \<Rightarrow> event \<Rightarrow> mfa_state \<Rightarrow> mfa_state" where
  "applyCall H now (EvGenerate setupId secret uname) st =
     snd (generateSecret now setupId secret uname st)"
| "applyCall H now (EvComplete setupId token) st =
     (case completeMFASetup H now st setupId token of
        Inl e \<Rightarrow> st
      | Inr (res, st', calls) \<Rightarrow> st')"
| "applyCall H now (EvCleanup uname) st = snd (cleanupUserSetups uname st)"
| "applyCall H now (EvVerify uname token) st =
     (case verifyToken H now st uname token of
        Inl e \<Rightarrow> st
      | Inr (res, st', calls) \<Rightarrow> st')"
| "applyCall H now (EvReset uname) st = snd (resetMFA uname st)"

datatype step = Call nat event | TimersRun nat

fun applyStep :: "hmac \<Rightarrow> step \<Rightarrow> mfa_state \<Rightarrow> mfa_state" where
  "applyStep H (Call now ev) st = applyCall H now ev st"
| "applyStep H (TimersRun t) st = fireTimers t st"

fun runSteps :: "hmac \<Rightarrow> step list \<Rightarrow> mfa_state \<Rightarrow> mfa_state" where
  "runSteps H [] st = st"
| "runSteps H (x # xs) st = runSteps H xs (applyStep H x st)"

section \<open>The handlers of the auth router\<close>

text \<open>
  \<open>POST /auth/login\<close>.  The configured credential (\<open>validUsername\<close>,
  \<open>validPasswordHash\<close>) and \<open>bcrypt.compare\<close> are parameters; the comparison may
  raise (it does on a password that is not a string), which the handler catches.  The
  username and password are \<open>None\<close> when the body lacks the field.  As in the source,
  the hash comparison is made only when the username is the configured one.
\<close>

definition postLogin ::
  "(string option \<Rightarrow> string \<Rightarrow> js_error + bool) \<Rightarrow> string \<Rightarrow> string \<Rightarrow> mfa_state
     \<Rightarrow> string option \<Rightarrow> string option \<Rightarrow> session \<Rightarrow> outcome \<times> session" where
  "postLogin bcryptCompare validUsername validPasswordHash st uname password sess =
     (if uname = Some validUsername then
        (case bcryptCompare password validPasswordHash of
           Inl e \<Rightarrow> (Redirect ''/auth/login?error=1'', sess)
         | Inr matches \<Rightarrow>
             if matches then
               (if \<not> hasMFAEnabled st validUsername
                then Redirect ''/auth/mfa-setup'' else Redirect ''/auth/mfa-verify'',
                sess\<lparr> passwordVerified := True, username := uname \<rparr>)
             else (Redirect ''/auth/login?error=1'', sess))
      else (Redirect ''/auth/login?error=1'', sess))"

text \<open>A string field of the session is truthy when it is set and not empty.\<close>

definition truthy :: "string option \<Rightarrow> bool" where
  "truthy v = (case v of None \<Rightarrow> False | Some s \<Rightarrow> s \<noteq> [])"

text \<open>
  \<open>POST /auth/mfa-setup\<close>.  An exception of \<open>completeMFASetup\<close> is not caught by the
  handler; Express answers it with status 500 and nothing has been written by then.
\<close>

definition postMfaSetup ::
  "hmac \<Rightarrow> nat \<Rightarrow> mfa_state \<Rightarrow> string option \<Rightarrow> session
     \<Rightarrow> js_error + (outcome \<times> session \<times> mfa_state)" where
  "postMfaSetup H now st token sess =
     (if \<not> passwordVerified sess \<or> \<not> truthy (mfaSetupId sess)
      then Inr (Redirect ''/auth/login'', sess, st)
      else
        (case mfaSetupId sess of
           None \<Rightarrow> Inr (Redirect ''/auth/login'', sess, st)
         | Some setupId \<Rightarrow>
             (case completeMFASetup H now st setupId token of
                Inl e \<Rightarrow> Inl e
              | Inr (Success, st', calls) \<Rightarrow>
                  Inr (Redirect ''/'',
                       sess\<lparr> authenticated := True, user := username sess,
                             passwordVerified := False, mfaSetupId := None \<rparr>,
                       st')
              | Inr (Failure err, st', calls) \<Rightarrow>
                  Inr (Redirect ''/auth/mfa-setup?error=1'', sess, st'))))"

text \<open>
  \<open>POST /auth/mfa-verify\<close>.  A session without a username looks up \<open>undefined\<close> in
  the secret store, finds nothing, and fails like a wrong code.
\<close>

definition postMfaVerify ::
  "hmac \<Rightarrow> nat \<Rightarrow> mfa_state \<Rightarrow> string option \<Rightarrow> session
     \<Rightarrow> js_error + (outcome \<times> session \<times> mfa_state)" where
  "postMfaVerify H now st token sess =
     (if \<not> passwordVerified sess then Inr (Redirect ''/auth/login'', sess, st)
      else
        (case username sess of
           None \<Rightarrow> Inr (Redirect ''/auth/mfa-verify?error=1'', sess, st)
         | Some uname \<Rightarrow>
             (case verifyToken H now st uname token of
                Inl e \<Rightarrow> Inl e
              | Inr (verified, st', calls) \<Rightarrow>
                  if verified then
                    Inr (Redirect ''/'',
                         sess\<lparr> authenticated := True, user := Some uname,
                               passwordVerified := False \<rparr>,
                         st')
                  else Inr (Redirect ''/auth/mfa-verify?error=1'', sess, st'))))"

section \<open>Configuration of the public paths\<close>

text \<open>
  \<open>getPublicPaths\<close> reads \<open>PUBLIC_PATHS\<close> (\<open>None\<close> when the variable is not set; the
  empty string is falsy as well) and parses it as JSON inside a \<open>try\<close>.  \<open>JSON.parse\<close>
  is a parameter: it raises (\<open>Inl\<close>) on text that is not JSON and returns the parsed
  value otherwise.  Whatever it returns is used as it is.
\<close>

datatype json =
    JNull
  | JBool bool
  | JNumber int
  | JString string
  | JArray "json list"
  | JObject "(string \<times> json) list"

datatype parse_error = SyntaxError

definition getPublicPaths :: "(string \<Rightarrow> parse_error + json) \<Rightarrow> string option \<Rightarrow> json" where
  "getPublicPaths JSON_parse envPaths =
     (case envPaths of
        None \<Rightarrow> JArray (map JString defaultPublicPaths)
      | Some text \<Rightarrow>
          if text = [] then JArray (map JString defaultPublicPaths)
          else (case JSON_parse text of
                  Inr customPaths \<Rightarrow> customPaths
                | Inl e \<Rightarrow> JArray (map JString defaultPublicPaths)))"

text \<open>
  \<open>isPublicPath\<close> as it runs on the value \<open>getPublicPaths\<close> returned:
  \<open>publicPaths.some(...)\<close> exists on an array only, and raises a \<open>TypeError\<close> on
  every other value.  An element that is a string is compared as in \<open>isPublicPath\<close>;
  any other element is never identical to the path, and in \<open>publicPath + '/'\<close> it is
  converted to a string first (\<open>toStr\<close>, JavaScript's conversion, a parameter).
\<close>

definition isPublicPathJson :: "(json \<Rightarrow> string) \<Rightarrow> json \<Rightarrow> string \<Rightarrow> js_error + bool" where
  "isPublicPathJson toStr publicPaths p =
     (case publicPaths of
        JArray elems \<Rightarrow>
          Inr (list_ex (\<lambda>publicPath.
                  case publicPath of
                    JString s \<Rightarrow> p = s \<or> startsWith p (s @ ''/'')
                  | other \<Rightarrow> startsWith p (toStr other @ ''/''))
                elems)
      | other \<Rightarrow> Inl TypeError)"

fun isArray :: "json \<Rightarrow> bool" where
  "isArray (JArray elems) = True"
| "isArray v = False"

section \<open>Predicates used in the properties\<close>

text \<open>
  The invariant of the setup registry: the keys of \<open>pendingSetups\<close> are distinct (it is
  a \<open>Map\<close>), and so are the usernames of its entries, that is, no username has two
  pending setups.
\<close>

definition setupInvariant :: "mfa_state \<Rightarrow> bool" where
  "setupInvariant st =
     (distinct (map fst (pendingSetups st)) \<and>
      distinct (map (\<lambda>(setupId, setup). setupUsername setup) (pendingSetups st)))"

text \<open>The setup id an event brings into the registry, if any.\<close>

fun issuedId :: "event \<Rightarrow> string option" where
  "issuedId (EvGenerate setupId secret uname) = Some setupId"
| "issuedId ev = None"

definition neverIssues :: "string \<Rightarrow> (nat \<times> event) list \<Rightarrow> bool" where
  "neverIssues setupId evs = list_all (\<lambda>(now, ev). issuedId ev \<noteq> Some setupId) evs"



text \<open>
  Two facts about one setup id that the operations maintain: a setup that is pending
  still has its timer waiting (\<open>hasTimer\<close>), and a setup id is either not pending or
  pending for the given user (\<open>ownedOrAbsent\<close>).
\<close>

definition hasTimer :: "string \<Rightarrow> nat \<Rightarrow> mfa_state \<Rightarrow> bool" where
  "hasTimer k due st =
     (map_of (pendingSetups st) k \<noteq> None \<longrightarrow> (due, k) \<in> set (timers st))"

definition ownedOrAbsent :: "string \<Rightarrow> string \<Rightarrow> mfa_state \<Rightarrow> bool" where
  "ownedOrAbsent k uname st =
     (case map_of (pendingSetups st) k of
        None \<Rightarrow> True
      | Some setup \<Rightarrow> setupUsername setup = uname)"

text \<open>
  Concrete inputs for the examples below: a candidate secret; the registry after alice
  began a setup at 1700005400000 ms; the same with a secret stored for her; her session
  during the setup; an anonymous request.
\<close>

definition sampleSecret :: generated_secret where
  "sampleSecret = \<lparr> base32 = ''JBSWY3DPEHPK3PXP'',
     otpauth_url = ''otpauth://totp/alice?secret=JBSWY3DPEHPK3PXP'' \<rparr>"

definition sampleState :: mfa_state where
  "sampleState = snd (generateSecret 1700005400000 ''S1'' sampleSecret ''alice'' emptyState)"

definition enrolledState :: mfa_state where
  "enrolledState = sampleState\<lparr> userSecrets := [(''alice'', ''JBSWY3DPEHPK3PXP'')] \<rparr>"

definition sampleSession :: session where
  "sampleSession = freshSession\<lparr> passwordVerified := True, username := Some ''alice'',
     mfaSetupId := Some ''S1'' \<rparr>"

text \<open>A stand-in for \<open>bcrypt.compare\<close>: it raises on a missing password, as the library
  does, and the "hash" of a password is the password with a prefix.\<close>

definition sampleBcrypt :: "string option \<Rightarrow> string \<Rightarrow> js_error + bool" where
  "sampleBcrypt password passwordHash =
     (case password of
        None \<Rightarrow> Inl TypeError
      | Some p \<Rightarrow> Inr (''hash of '' @ p = passwordHash))"

text \<open>A stand-in for \<open>JSON.parse\<close> that knows three JSON texts and rejects every
  other.\<close>

definition sampleParse :: "string \<Rightarrow> parse_error + json" where
  "sampleParse text =
     (if text = ''[]'' then Inr (JArray [])
      else if text = ''null'' then Inr JNull
      else if text = ''5'' then Inr (JNumber 5)
      else Inl SyntaxError)"

definition anonymousGet :: "string \<Rightarrow> request" where
  "anonymousGet p = \<lparr> reqMethod = GET, reqPath = p, reqSession = freshSession,
     reqAccept = None, reqUpgrade = None \<rparr>"

section \<open>Properties\<close>

subsection \<open>The registry as a map\<close>

lemma fold_delete_filter:
  "fold AList.delete ks al = filter (\<lambda>(k, v). k \<notin> set ks) al"
proof (induction ks arbitrary: al)
  case Nil
  then show ?case by simp
next
  case (Cons k ks)
  have "filter (\<lambda>(k', v). k' \<notin> set ks) (AList.delete k al)
      = filter (\<lambda>(k', v). k' \<notin> set (k # ks)) al"
    by (induction al) (auto simp add: AList.delete_eq)
  with Cons show ?case by simp
qed

lemma map_of_filter_keys:
  "map_of (filter (\<lambda>(k, v). k \<notin> S) al) k = (if k \<in> S then None else map_of al k)"
  by (induction al) auto

lemma map_of_fold_delete:
  "map_of (fold AList.delete ks al) k = (if k \<in> set ks then None else map_of al k)"
  by (simp add: fold_delete_filter map_of_filter_keys)

lemma pending_cleanup:
  "pendingSetups (snd (cleanupUserSetups uname st)) =
     filter (\<lambda>(k, v). k \<notin> fst ` {e \<in> set (pendingSetups st). setupUsername (snd e) = uname})
       (pendingSetups st)"
  by (simp add: cleanupUserSetups_def Let_def fold_delete_filter case_prod_unfold)

lemma timers_cleanup: "timers (snd (cleanupUserSetups uname st)) = timers st"
  by (simp add: cleanupUserSetups_def Let_def)

lemma secrets_cleanup: "userSecrets (snd (cleanupUserSetups uname st)) = userSecrets st"
  by (simp add: cleanupUserSetups_def Let_def)

lemma lookup_cleanup:
  "map_of (pendingSetups (snd (cleanupUserSetups uname st))) k =
     (if k \<in> fst ` {e \<in> set (pendingSetups st). setupUsername (snd e) = uname} then None
      else map_of (pendingSetups st) k)"
  by (simp add: pending_cleanup map_of_filter_keys)

lemma cleanup_removes_user:
  "e \<in> set (pendingSetups (snd (cleanupUserSetups uname st))) \<Longrightarrow> setupUsername (snd e) \<noteq> uname"
  by (force simp add: pending_cleanup image_iff)

lemma pending_generate:
  "pendingSetups (snd (generateSecret now setupId secret uname st)) =
     AList.update setupId
       \<lparr> setupUsername = uname, setupSecret = base32 secret, setupTimestamp = now \<rparr>
       (pendingSetups (snd (cleanupUserSetups uname st)))"
  by (simp add: generateSecret_def Let_def split: prod.splits)

lemma timers_generate:
  "timers (snd (generateSecret now setupId secret uname st)) = timers st @ [(now + setupTTL, setupId)]"
  by (simp add: generateSecret_def Let_def cleanupUserSetups_def split: prod.splits)

lemma lookup_fireTimers:
  "map_of (pendingSetups (fireTimers now st)) k =
     (if k \<in> snd ` {e \<in> set (timers st). fst e \<le> now} then None else map_of (pendingSetups st) k)"
  by (simp add: fireTimers_def map_of_fold_delete case_prod_unfold)

lemma timers_fireTimers:
  "set (timers (fireTimers now st)) = {e \<in> set (timers st). \<not> fst e \<le> now}"
  by (auto simp add: fireTimers_def)


subsection \<open>The invariant is kept\<close>

lemma set_update_subset: "set (AList.update k v al) \<subseteq> insert (k, v) (set al)"
  by (induction al) auto

lemma distinct_map_update:
  "distinct (map g al) \<Longrightarrow> g (k, v) \<notin> g ` set al \<Longrightarrow> distinct (map g (AList.update k v al))"
proof (induction al)
  case Nil
  then show ?case by simp
next
  case (Cons e al)
  obtain k' v' where e: "e = (k', v')" by (cases e)
  show ?case
  proof (cases "k' = k")
    case True
    with Cons.prems e show ?thesis by auto
  next
    case False
    have "g e \<notin> g ` set (AList.update k v al)"
      using Cons.prems set_update_subset [of k v al] by auto
    moreover have "distinct (map g (AList.update k v al))"
      using Cons by auto
    ultimately show ?thesis using False e by simp
  qed
qed

lemma invariant_fireTimers: "setupInvariant st \<Longrightarrow> setupInvariant (fireTimers now st)"
  by (simp add: setupInvariant_def fireTimers_def fold_delete_filter distinct_map_filter)

lemma invariant_cleanup: "setupInvariant st \<Longrightarrow> setupInvariant (snd (cleanupUserSetups uname st))"
  by (simp add: setupInvariant_def pending_cleanup distinct_map_filter)

lemma invariant_generate:
  assumes "setupInvariant st"
  shows "setupInvariant (snd (generateSecret now setupId secret uname st))"
proof -
  let ?ps = "pendingSetups (snd (cleanupUserSetups uname st))"
  let ?v = "\<lparr> setupUsername = uname, setupSecret = base32 secret, setupTimestamp = now \<rparr>"
  let ?g = "\<lambda>(setupId :: string, setup). setupUsername setup"
  have inv: "setupInvariant (snd (cleanupUserSetups uname st))"
    using assms by (rule invariant_cleanup)
  have "?g (setupId, ?v) \<notin> ?g ` set ?ps"
    using cleanup_removes_user [of _ uname st] by (auto simp add: case_prod_unfold)
  with inv have "distinct (map ?g (AList.update setupId ?v ?ps))"
    by (intro distinct_map_update) (simp_all add: setupInvariant_def)
  moreover have "distinct (map fst (AList.update setupId ?v ?ps))"
    using inv by (simp add: setupInvariant_def AList.distinct_update)
  ultimately show ?thesis
    by (simp add: setupInvariant_def pending_generate)
qed

lemma invariant_complete:
  "setupInvariant st \<Longrightarrow> completeMFASetup H now st setupId token = Inr (res, st', calls)
    \<Longrightarrow> setupInvariant st'"
  by (auto simp add: completeMFASetup_def setupInvariant_def Let_def AList.delete_eq
      distinct_map_filter split: option.splits if_splits)

lemma invariant_verify:
  "verifyToken H now st uname token = Inr (res, st', calls) \<Longrightarrow> st' = st"
  by (auto simp add: verifyToken_def Let_def split: option.splits if_splits)

lemma invariant_reset: "setupInvariant st \<Longrightarrow> setupInvariant (snd (resetMFA uname st))"
  by (simp add: setupInvariant_def resetMFA_def)

lemma invariant_applyEvent:
  assumes "setupInvariant st"
  shows "setupInvariant (applyEvent H now ev st)"
proof -
  have fired: "setupInvariant (fireTimers now st)"
    using assms by (rule invariant_fireTimers)
  show ?thesis
  proof (cases ev)
    case (EvGenerate setupId secret uname)
    with fired show ?thesis by (simp add: invariant_generate)
  next
    case (EvComplete setupId token)
    with fired show ?thesis
      by (auto split: sum.splits dest: invariant_complete)
  next
    case (EvCleanup uname)
    with fired show ?thesis by (simp add: invariant_cleanup)
  next
    case (EvVerify uname token)
    with fired show ?thesis
      by (auto split: sum.splits dest: invariant_verify)
  next
    case (EvReset uname)
    with fired show ?thesis by (simp add: invariant_reset)
  qed
qed


subsection \<open>Lookups only shrink, timers only grow\<close>

text \<open>A call that does not issue the setup id \<open>k\<close> either removes \<open>k\<close> from the
  registry or leaves its entry as it was, and it removes no timer.\<close>

lemma lookup_generate_other:
  "setupId' \<noteq> k \<Longrightarrow>
   map_of (pendingSetups (snd (generateSecret now setupId' secret uname st))) k = None \<or>
   map_of (pendingSetups (snd (generateSecret now setupId' secret uname st))) k
     = map_of (pendingSetups st) k"
  by (simp add: pending_generate AList.update_conv' lookup_cleanup)

lemma lookup_complete:
  "completeMFASetup H now st setupId token = Inr (res, st', calls) \<Longrightarrow>
   map_of (pendingSetups st') k = None \<or> map_of (pendingSetups st') k = map_of (pendingSetups st) k"
  by (auto simp add: completeMFASetup_def Let_def AList.delete_conv'
      split: option.splits if_splits)

lemma timers_complete:
  "completeMFASetup H now st setupId token = Inr (res, st', calls) \<Longrightarrow> timers st' = timers st"
  by (auto simp add: completeMFASetup_def Let_def split: option.splits if_splits)

lemma lookup_applyEvent:
  assumes "issuedId ev \<noteq> Some k"
  shows "map_of (pendingSetups (applyEvent H now ev st)) k = None \<or>
         map_of (pendingSetups (applyEvent H now ev st)) k = map_of (pendingSetups (fireTimers now st)) k"
proof (cases ev)
  case (EvGenerate setupId secret uname)
  with assms show ?thesis using lookup_generate_other [of setupId k] by simp
next
  case (EvComplete setupId token)
  then show ?thesis
    by (auto split: sum.splits dest: lookup_complete [where k = k])
next
  case (EvCleanup uname)
  then show ?thesis by (simp add: lookup_cleanup)
next
  case (EvVerify uname token)
  then show ?thesis by (auto split: sum.splits dest: invariant_verify)
next
  case (EvReset uname)
  then show ?thesis by (simp add: resetMFA_def)
qed

lemma timers_applyEvent:
  "set (timers (fireTimers now st)) \<subseteq> set (timers (applyEvent H now ev st))"
proof (cases ev)
  case (EvGenerate setupId secret uname)
  then show ?thesis by (auto simp add: timers_generate)
next
  case (EvComplete setupId token)
  then show ?thesis by (auto split: sum.splits dest: timers_complete)
next
  case (EvCleanup uname)
  then show ?thesis by (simp add: timers_cleanup)
next
  case (EvVerify uname token)
  then show ?thesis by (auto split: sum.splits dest: invariant_verify)
next
  case (EvReset uname)
  then show ?thesis by (simp add: resetMFA_def)
qed



lemma applyEvent_applyCall: "applyEvent H now ev st = applyCall H now ev (fireTimers now st)"
  by (cases ev) simp_all

text \<open>A trace of the event loop that is on time is a trace of steps in which a run of
  the timers stands before every call.\<close>

lemma run_runSteps:
  "run H evs st = runSteps H (concat (map (\<lambda>(now, ev). [TimersRun now, Call now ev]) evs)) st"
  by (induction evs arbitrary: st) (auto simp add: applyEvent_applyCall)

subsection \<open>A pending setup keeps its timer\<close>

lemma hasTimer_fireTimers: "hasTimer k due st \<Longrightarrow> hasTimer k due (fireTimers now st)"
  by (force simp add: hasTimer_def lookup_fireTimers timers_fireTimers image_iff split: if_splits)

lemma hasTimer_applyEvent:
  assumes "hasTimer k due st" and "issuedId ev \<noteq> Some k"
  shows "hasTimer k due (applyEvent H now ev st)"
proof -
  have "hasTimer k due (fireTimers now st)"
    using assms(1) by (rule hasTimer_fireTimers)
  then show ?thesis
    using lookup_applyEvent [OF assms(2), of H now st] timers_applyEvent [of now st H ev]
    by (auto simp add: hasTimer_def)
qed

lemma hasTimer_run:
  "hasTimer k due st \<Longrightarrow> neverIssues k evs \<Longrightarrow> hasTimer k due (run H evs st)"
proof (induction evs arbitrary: st)
  case Nil
  then show ?case by simp
next
  case (Cons e evs)
  obtain now ev where e: "e = (now, ev)" by (cases e)
  with Cons.prems have "hasTimer k due (applyEvent H now ev st)" and "neverIssues k evs"
    by (simp_all add: neverIssues_def hasTimer_applyEvent)
  with Cons.IH e show ?case by simp
qed




lemma hasTimer_generate:
  "hasTimer setupId (now + setupTTL) (snd (generateSecret now setupId secret uname st))"
  by (simp add: hasTimer_def timers_generate)

lemma expired_absent:
  "hasTimer k due st \<Longrightarrow> due \<le> now \<Longrightarrow> map_of (pendingSetups (fireTimers now st)) k = None"
  by (force simp add: hasTimer_def lookup_fireTimers image_iff)

lemma complete_absent:
  "map_of (pendingSetups st) setupId = None \<Longrightarrow>
   completeMFASetup H now st setupId token = Inr (Failure ''Invalid or expired setup'', st, [])"
  by (simp add: completeMFASetup_def)

subsection \<open>Superseded setup ids\<close>

lemma ownedOrAbsent_shrink:
  "ownedOrAbsent k uname st \<Longrightarrow>
   map_of (pendingSetups st') k = None \<or> map_of (pendingSetups st') k = map_of (pendingSetups st) k \<Longrightarrow>
   ownedOrAbsent k uname st'"
  by (auto simp add: ownedOrAbsent_def)

lemma lookup_fireTimers_shrink:
  "map_of (pendingSetups (fireTimers now st)) k = None \<or>
   map_of (pendingSetups (fireTimers now st)) k = map_of (pendingSetups st) k"
  by (simp add: lookup_fireTimers)

lemma ownedOrAbsent_applyEvent:
  assumes "ownedOrAbsent k uname st" and "issuedId ev \<noteq> Some k"
  shows "ownedOrAbsent k uname (applyEvent H now ev st)"
proof -
  have "ownedOrAbsent k uname (fireTimers now st)"
    using assms(1) lookup_fireTimers_shrink by (rule ownedOrAbsent_shrink)
  then show ?thesis
    using lookup_applyEvent [OF assms(2)] by (rule ownedOrAbsent_shrink)
qed

lemma ownedOrAbsent_run:
  "ownedOrAbsent k uname st \<Longrightarrow> neverIssues k evs \<Longrightarrow> ownedOrAbsent k uname (run H evs st)"
proof (induction evs arbitrary: st)
  case Nil
  then show ?case by simp
next
  case (Cons e evs)
  obtain now ev where e: "e = (now, ev)" by (cases e)
  with Cons.prems have "ownedOrAbsent k uname (applyEvent H now ev st)" and "neverIssues k evs"
    by (simp_all add: neverIssues_def ownedOrAbsent_applyEvent)
  with Cons.IH e show ?case by simp
qed

lemma absent_applyEvent:
  assumes "map_of (pendingSetups st) k = None" and "issuedId ev \<noteq> Some k"
  shows "map_of (pendingSetups (applyEvent H now ev st)) k = None"
  using assms(1) lookup_applyEvent [OF assms(2), of H now st] lookup_fireTimers_shrink [of now st k]
  by auto

lemma absent_run:
  "map_of (pendingSetups st) k = None \<Longrightarrow> neverIssues k evs \<Longrightarrow>
   map_of (pendingSetups (run H evs st)) k = None"
proof (induction evs arbitrary: st)
  case Nil
  then show ?case by simp
next
  case (Cons e evs)
  obtain now ev where e: "e = (now, ev)" by (cases e)
  with Cons.prems have "map_of (pendingSetups (applyEvent H now ev st)) k = None"
    and "neverIssues k evs"
    by (simp_all add: neverIssues_def absent_applyEvent)
  with Cons.IH e show ?case by simp
qed

lemma owned_generate:
  "ownedOrAbsent setupId uname (snd (generateSecret now setupId secret uname st))"
  by (simp add: ownedOrAbsent_def pending_generate AList.update_conv')

lemma superseded_generate:
  assumes "ownedOrAbsent k uname st" and "setupId \<noteq> k"
  shows "map_of (pendingSetups (snd (generateSecret now setupId secret uname st))) k = None"
proof (cases "map_of (pendingSetups st) k")
  case None
  with assms(2) show ?thesis
    by (simp add: pending_generate AList.update_conv' lookup_cleanup)
next
  case (Some entry)
  then have "(k, entry) \<in> set (pendingSetups st)" by (rule map_of_SomeD)
  moreover from Some assms(1) have "setupUsername entry = uname"
    by (simp add: ownedOrAbsent_def)
  ultimately have "k \<in> fst ` {e \<in> set (pendingSetups st). setupUsername (snd e) = uname}"
    by force
  with assms(2) show ?thesis
    by (simp add: pending_generate AList.update_conv' lookup_cleanup)
qed

subsection \<open>The codes of the TOTP engine\<close>

lemma length_sixDigits: "length (sixDigits n) = 6"
  by (simp add: sixDigits_def)

lemma length_hotp: "length (hotp H secret c) = 6"
  by (simp add: hotp_def length_sixDigits)

lemma isDigit_digitChar: "d < 10 \<Longrightarrow> isDigit (digitChar d)"
  unfolding isDigit_def digitChar_def by (rule nth_mem) simp

lemma digits_sixDigits: "\<forall>c \<in> set (sixDigits n). isDigit c"
  by (simp add: sixDigits_def isDigit_digitChar)

lemma strip_hotp: "stripNonDigits (hotp H secret c) = hotp H secret c"
  by (simp add: stripNonDigits_def hotp_def digits_sixDigits)

lemma totpVerify_iff:
  "totpVerify H secret token t w \<longleftrightarrow>
     (\<exists>c. timeStep t - int w \<le> c \<and> c \<le> timeStep t + int w \<and> hotp H secret c = token)"
  by (auto simp add: totpVerify_def list_ex_iff)

lemma hotp_cases: "hotp H secret c \<in> sixDigits ` {..<1000000}"
  by (simp add: hotp_def)

lemma hotp_collision:
  "\<exists>i j. i < j \<and> hotp H secret (int (3 * i)) = hotp H secret (int (3 * j))"
proof -
  let ?f = "\<lambda>i::nat. hotp H secret (int (3 * i))"
  let ?A = "{..(1000000::nat)}"
  have "?f ` ?A \<subseteq> sixDigits ` {..<1000000}"
    using hotp_cases by blast
  then have "card (?f ` ?A) \<le> card (sixDigits ` {..<(1000000::nat)})"
    by (intro card_mono) simp_all
  also have "\<dots> \<le> card {..<(1000000::nat)}"
    by (rule card_image_le) simp
  finally have "card (?f ` ?A) < card ?A" by simp
  then have "\<not> inj_on ?f ?A" by (rule pigeonhole)
  then obtain i j where "i \<noteq> j" and "?f i = ?f j"
    by (auto simp add: inj_on_def)
  then show ?thesis
    by (cases "i < j") (force simp add: not_less le_less)+
qed

lemma timeStep_90: "timeStep (90 * i) = int (3 * i)"
  by (simp add: timeStep_def)

lemma stripNonDigits_idem: "stripNonDigits (stripNonDigits c) = stripNonDigits c"
  by (simp add: stripNonDigits_def)

subsection \<open>Values of the keyed hash\<close>

text \<open>
  The hash is evaluated one compression at a time.  The first example is the test vector
  of RFC 6238 for SHA-1 (the ASCII secret \<open>12345678901234567890\<close> at second 59, step 1,
  where the eight-digit code is 94287082).  The other two are the codes of the sample
  secret at the steps 56666850 and 56666914, which agree in their last six digits.
\<close>

lemmas compress_eval = compress_def schedule_def rotl_def m32_def not32_def
  fCh_def fParity_def fMaj_def eval_nat_numeral

lemma key_rfc:
  "base32Decode ''GEZDGNBVGY3TQOJQGEZDGNBVGY3TQOJQ'' =
     [49, 50, 51, 52, 53, 54, 55, 56, 57, 48, 49, 50, 51, 52, 53, 54, 55, 56, 57, 48]"
  by (simp add: base32Decode_def base32Value_def)

lemma compress_1:
  "compress sha1Init
     [117703938, 50331918, 252053252, 84017920, 17698566, 909522486, 909522486, 909522486,
     909522486, 909522486, 909522486, 909522486, 909522486, 909522486, 909522486, 909522486]
   = (3418885260, 4120502956, 3183003698, 3667247555, 4167577637)"
  by (simp add: compress_eval sha1Init_def)

lemma compress_2:
  "compress (3418885260, 4120502956, 3183003698, 3667247555, 4167577637)
     [0, 1, 2147483648, 0, 0, 0, 0, 0, 0, 0, 0, 0, 0, 0, 0, 576]
   = (2923006674, 3845772892, 1570953884, 2321626177, 2537110156)"
  by (simp add: compress_eval sha1Init_def)

lemma words_inner_rfc:
  "toWords (sha1Pad
     [7, 4, 5, 2, 3, 0, 1, 14, 15, 6, 7, 4, 5, 2, 3, 0, 1, 14, 15, 6, 54, 54, 54, 54, 54, 54,
     54, 54, 54, 54, 54, 54, 54, 54, 54, 54, 54, 54, 54, 54, 54, 54, 54, 54, 54, 54, 54, 54,
     54, 54, 54, 54, 54, 54, 54, 54, 54, 54, 54, 54, 54, 54, 54, 54, 0, 0, 0, 0, 0, 0, 0, 1])
   = [117703938, 50331918, 252053252, 84017920, 17698566, 909522486, 909522486, 909522486,
     909522486, 909522486, 909522486, 909522486, 909522486, 909522486, 909522486, 909522486,
     0, 1, 2147483648, 0, 0, 0, 0, 0, 0, 0, 0, 0, 0, 0, 0, 576]"
  by (simp add: sha1Pad_def bigEndian8_def eval_nat_numeral)

lemma sha1_inner_rfc:
  "sha1
     [7, 4, 5, 2, 3, 0, 1, 14, 15, 6, 7, 4, 5, 2, 3, 0, 1, 14, 15, 6, 54, 54, 54, 54, 54, 54,
     54, 54, 54, 54, 54, 54, 54, 54, 54, 54, 54, 54, 54, 54, 54, 54, 54, 54, 54, 54, 54, 54,
     54, 54, 54, 54, 54, 54, 54, 54, 54, 54, 54, 54, 54, 54, 54, 54, 0, 0, 0, 0, 0, 0, 0, 1]
   = [174, 57, 138, 210, 229, 57, 214, 92, 93, 162, 218, 156, 138, 97, 52, 65, 151, 57, 58,
     140]"
  by (simp add: sha1_def words_inner_rfc wordBytes_def compress_1 compress_2)

lemma compress_3:
  "compress sha1Init
     [1835954024, 1768581988, 1701604718, 1869113706, 1801741676, 1549556828, 1549556828,
     1549556828, 1549556828, 1549556828, 1549556828, 1549556828, 1549556828, 1549556828,
     1549556828, 1549556828]
   = (2562571725, 1491106814, 2908544490, 985678603, 4262488101)"
  by (simp add: compress_eval sha1Init_def)

lemma compress_4:
  "compress (2562571725, 1491106814, 2908544490, 985678603, 4262488101)
     [2923006674, 3845772892, 1570953884, 2321626177, 2537110156, 2147483648, 0, 0, 0, 0, 0,
     0, 0, 0, 0, 672]
   = (1973717529, 3570131200, 1682868929, 964618868, 2049782699)"
  by (simp add: compress_eval sha1Init_def)

lemma words_outer_rfc:
  "toWords (sha1Pad
     [109, 110, 111, 104, 105, 106, 107, 100, 101, 108, 109, 110, 111, 104, 105, 106, 107,
     100, 101, 108, 92, 92, 92, 92, 92, 92, 92, 92, 92, 92, 92, 92, 92, 92, 92, 92, 92, 92,
     92, 92, 92, 92, 92, 92, 92, 92, 92, 92, 92, 92, 92, 92, 92, 92, 92, 92, 92, 92, 92, 92,
     92, 92, 92, 92, 174, 57, 138, 210, 229, 57, 214, 92, 93, 162, 218, 156, 138, 97, 52, 65,
     151, 57, 58, 140])
   = [1835954024, 1768581988, 1701604718, 1869113706, 1801741676, 1549556828, 1549556828,
     1549556828, 1549556828, 1549556828, 1549556828, 1549556828, 1549556828, 1549556828,
     1549556828, 1549556828, 2923006674, 3845772892, 1570953884, 2321626177, 2537110156,
     2147483648, 0, 0, 0, 0, 0, 0, 0, 0, 0, 672]"
  by (simp add: sha1Pad_def bigEndian8_def eval_nat_numeral)

lemma sha1_outer_rfc:
  "sha1
     [109, 110, 111, 104, 105, 106, 107, 100, 101, 108, 109, 110, 111, 104, 105, 106, 107,
     100, 101, 108, 92, 92, 92, 92, 92, 92, 92, 92, 92, 92, 92, 92, 92, 92, 92, 92, 92, 92,
     92, 92, 92, 92, 92, 92, 92, 92, 92, 92, 92, 92, 92, 92, 92, 92, 92, 92, 92, 92, 92, 92,
     92, 92, 92, 92, 174, 57, 138, 210, 229, 57, 214, 92, 93, 162, 218, 156, 138, 97, 52, 65,
     151, 57, 58, 140]
   = [117, 164, 138, 25, 212, 203, 225, 0, 100, 78, 138, 193, 57, 126, 234, 116, 122, 45, 51,
     171]"
  by (simp add: sha1_def words_outer_rfc wordBytes_def compress_3 compress_4)

lemma hmac_rfc:
  "hmacSha1
     [49, 50, 51, 52, 53, 54, 55, 56, 57, 48, 49, 50, 51, 52, 53, 54, 55, 56, 57, 48]
     [0, 0, 0, 0, 0, 0, 0, 1]
   = [117, 164, 138, 25, 212, 203, 225, 0, 100, 78, 138, 193, 57, 126, 234, 116, 122, 45, 51,
     171]"
  by (simp add: hmacSha1_def Let_def eval_nat_numeral sha1_inner_rfc sha1_outer_rfc)

lemma code_rfc: "hmacSha1Code ''GEZDGNBVGY3TQOJQGEZDGNBVGY3TQOJQ'' 1 = 1094287082"
  by (simp add: hmacSha1Code_def key_rfc bigEndian8_def hmac_rfc dynamicTruncation_def)

lemma key_a:
  "base32Decode ''JBSWY3DPEHPK3PXP'' =
     [72, 101, 108, 108, 111, 33, 222, 173, 190, 239]"
  by (simp add: base32Decode_def base32Value_def)

lemma compress_5:
  "compress sha1Init
     [2119391834, 1494739099, 2295936566, 909522486, 909522486, 909522486, 909522486,
     909522486, 909522486, 909522486, 909522486, 909522486, 909522486, 909522486, 909522486,
     909522486]
   = (3715725260, 1380640354, 3878100862, 144215461, 2792695825)"
  by (simp add: compress_eval sha1Init_def)

lemma compress_6:
  "compress (3715725260, 1380640354, 3878100862, 144215461, 2792695825)
     [0, 56666850, 2147483648, 0, 0, 0, 0, 0, 0, 0, 0, 0, 0, 0, 0, 576]
   = (1518555679, 2740829268, 793969540, 1899316818, 2709634458)"
  by (simp add: compress_eval sha1Init_def)

lemma words_inner_a:
  "toWords (sha1Pad
     [126, 83, 90, 90, 89, 23, 232, 155, 136, 217, 54, 54, 54, 54, 54, 54, 54, 54, 54, 54,
     54, 54, 54, 54, 54, 54, 54, 54, 54, 54, 54, 54, 54, 54, 54, 54, 54, 54, 54, 54, 54, 54,
     54, 54, 54, 54, 54, 54, 54, 54, 54, 54, 54, 54, 54, 54, 54, 54, 54, 54, 54, 54, 54, 54,
     0, 0, 0, 0, 3, 96, 170, 226])
   = [2119391834, 1494739099, 2295936566, 909522486, 909522486, 909522486, 909522486,
     909522486, 909522486, 909522486, 909522486, 909522486, 909522486, 909522486, 909522486,
     909522486, 0, 56666850, 2147483648, 0, 0, 0, 0, 0, 0, 0, 0, 0, 0, 0, 0, 576]"
  by (simp add: sha1Pad_def bigEndian8_def eval_nat_numeral)

lemma sha1_inner_a:
  "sha1
     [126, 83, 90, 90, 89, 23, 232, 155, 136, 217, 54, 54, 54, 54, 54, 54, 54, 54, 54, 54,
     54, 54, 54, 54, 54, 54, 54, 54, 54, 54, 54, 54, 54, 54, 54, 54, 54, 54, 54, 54, 54, 54,
     54, 54, 54, 54, 54, 54, 54, 54, 54, 54, 54, 54, 54, 54, 54, 54, 54, 54, 54, 54, 54, 54,
     0, 0, 0, 0, 3, 96, 170, 226]
   = [90, 131, 82, 31, 163, 93, 188, 84, 47, 83, 3, 132, 113, 53, 70, 82, 161, 129, 189,
     154]"
  by (simp add: sha1_def words_inner_a wordBytes_def compress_5 compress_6)

lemma compress_7:
  "compress sha1Init
     [339292208, 863863537, 3803405404, 1549556828, 1549556828, 1549556828, 1549556828,
     1549556828, 1549556828, 1549556828, 1549556828, 1549556828, 1549556828, 1549556828,
     1549556828, 1549556828]
   = (2634400316, 2437370271, 3036113104, 1192652808, 2427902477)"
  by (simp add: compress_eval sha1Init_def)

lemma compress_8:
  "compress (2634400316, 2437370271, 3036113104, 1192652808, 2427902477)
     [1518555679, 2740829268, 793969540, 1899316818, 2709634458, 2147483648, 0, 0, 0, 0, 0,
     0, 0, 0, 0, 672]
   = (2527663060, 2845234772, 843840144, 3983062091, 51040425)"
  by (simp add: compress_eval sha1Init_def)

lemma words_outer_a:
  "toWords (sha1Pad
     [20, 57, 48, 48, 51, 125, 130, 241, 226, 179, 92, 92, 92, 92, 92, 92, 92, 92, 92, 92,
     92, 92, 92, 92, 92, 92, 92, 92, 92, 92, 92, 92, 92, 92, 92, 92, 92, 92, 92, 92, 92, 92,
     92, 92, 92, 92, 92, 92, 92, 92, 92, 92, 92, 92, 92, 92, 92, 92, 92, 92, 92, 92, 92, 92,
     90, 131, 82, 31, 163, 93, 188, 84, 47, 83, 3, 132, 113, 53, 70, 82, 161, 129, 189, 154])
   = [339292208, 863863537, 3803405404, 1549556828, 1549556828, 1549556828, 1549556828,
     1549556828, 1549556828, 1549556828, 1549556828, 1549556828, 1549556828, 1549556828,
     1549556828, 1549556828, 1518555679, 2740829268, 793969540, 1899316818, 2709634458,
     2147483648, 0, 0, 0, 0, 0, 0, 0, 0, 0, 672]"
  by (simp add: sha1Pad_def bigEndian8_def eval_nat_numeral)

lemma sha1_outer_a:
  "sha1
     [20, 57, 48, 48, 51, 125, 130, 241, 226, 179, 92, 92, 92, 92, 92, 92, 92, 92, 92, 92,
     92, 92, 92, 92, 92, 92, 92, 92, 92, 92, 92, 92, 92, 92, 92, 92, 92, 92, 92, 92, 92, 92,
     92, 92, 92, 92, 92, 92, 92, 92, 92, 92, 92, 92, 92, 92, 92, 92, 92, 92, 92, 92, 92, 92,
     90, 131, 82, 31, 163, 93, 188, 84, 47, 83, 3, 132, 113, 53, 70, 82, 161, 129, 189, 154]
   = [150, 169, 19, 212, 169, 150, 214, 84, 50, 75, 250, 144, 237, 104, 180, 75, 3, 10, 208,
     169]"
  by (simp add: sha1_def words_outer_a wordBytes_def compress_7 compress_8)

lemma hmac_a:
  "hmacSha1
     [72, 101, 108, 108, 111, 33, 222, 173, 190, 239]
     [0, 0, 0, 0, 3, 96, 170, 226]
   = [150, 169, 19, 212, 169, 150, 214, 84, 50, 75, 250, 144, 237, 104, 180, 75, 3, 10, 208,
     169]"
  by (simp add: hmacSha1_def Let_def eval_nat_numeral sha1_inner_a sha1_outer_a)

lemma code_a: "hmacSha1Code ''JBSWY3DPEHPK3PXP'' 56666850 = 1274712301"
  by (simp add: hmacSha1Code_def key_a bigEndian8_def hmac_a dynamicTruncation_def)

lemma compress_9:
  "compress (3715725260, 1380640354, 3878100862, 144215461, 2792695825)
     [0, 56666914, 2147483648, 0, 0, 0, 0, 0, 0, 0, 0, 0, 0, 0, 0, 576]
   = (3612617062, 2091520640, 3423512688, 3241690208, 1538120788)"
  by (simp add: compress_eval sha1Init_def)

lemma words_inner_b:
  "toWords (sha1Pad
     [126, 83, 90, 90, 89, 23, 232, 155, 136, 217, 54, 54, 54, 54, 54, 54, 54, 54, 54, 54,
     54, 54, 54, 54, 54, 54, 54, 54, 54, 54, 54, 54, 54, 54, 54, 54, 54, 54, 54, 54, 54, 54,
     54, 54, 54, 54, 54, 54, 54, 54, 54, 54, 54, 54, 54, 54, 54, 54, 54, 54, 54, 54, 54, 54,
     0, 0, 0, 0, 3, 96, 171, 34])
   = [2119391834, 1494739099, 2295936566, 909522486, 909522486, 909522486, 909522486,
     909522486, 909522486, 909522486, 909522486, 909522486, 909522486, 909522486, 909522486,
     909522486, 0, 56666914, 2147483648, 0, 0, 0, 0, 0, 0, 0, 0, 0, 0, 0, 0, 576]"
  by (simp add: sha1Pad_def bigEndian8_def eval_nat_numeral)

lemma sha1_inner_b:
  "sha1
     [126, 83, 90, 90, 89, 23, 232, 155, 136, 217, 54, 54, 54, 54, 54, 54, 54, 54, 54, 54,
     54, 54, 54, 54, 54, 54, 54, 54, 54, 54, 54, 54, 54, 54, 54, 54, 54, 54, 54, 54, 54, 54,
     54, 54, 54, 54, 54, 54, 54, 54, 54, 54, 54, 54, 54, 54, 54, 54, 54, 54, 54, 54, 54, 54,
     0, 0, 0, 0, 3, 96, 171, 34]
   = [215, 84, 41, 102, 124, 170, 18, 128, 204, 14, 168, 112, 193, 56, 68, 96, 91, 173, 220,
     84]"
  by (simp add: sha1_def words_inner_b wordBytes_def compress_5 compress_9)

lemma compress_10:
  "compress (2634400316, 2437370271, 3036113104, 1192652808, 2427902477)
     [3612617062, 2091520640, 3423512688, 3241690208, 1538120788, 2147483648, 0, 0, 0, 0, 0,
     0, 0, 0, 0, 672]
   = (1316137773, 2110356427, 2554221896, 4113195949, 2651991260)"
  by (simp add: compress_eval sha1Init_def)

lemma words_outer_b:
  "toWords (sha1Pad
     [20, 57, 48, 48, 51, 125, 130, 241, 226, 179, 92, 92, 92, 92, 92, 92, 92, 92, 92, 92,
     92, 92, 92, 92, 92, 92, 92, 92, 92, 92, 92, 92, 92, 92, 92, 92, 92, 92, 92, 92, 92, 92,
     92, 92, 92, 92, 92, 92, 92, 92, 92, 92, 92, 92, 92, 92, 92, 92, 92, 92, 92, 92, 92, 92,
     215, 84, 41, 102, 124, 170, 18, 128, 204, 14, 168, 112, 193, 56, 68, 96, 91, 173, 220,
     84])
   = [339292208, 863863537, 3803405404, 1549556828, 1549556828, 1549556828, 1549556828,
     1549556828, 1549556828, 1549556828, 1549556828, 1549556828, 1549556828, 1549556828,
     1549556828, 1549556828, 3612617062, 2091520640, 3423512688, 3241690208, 1538120788,
     2147483648, 0, 0, 0, 0, 0, 0, 0, 0, 0, 672]"
  by (simp add: sha1Pad_def bigEndian8_def eval_nat_numeral)

lemma sha1_outer_b:
  "sha1
     [20, 57, 48, 48, 51, 125, 130, 241, 226, 179, 92, 92, 92, 92, 92, 92, 92, 92, 92, 92,
     92, 92, 92, 92, 92, 92, 92, 92, 92, 92, 92, 92, 92, 92, 92, 92, 92, 92, 92, 92, 92, 92,
     92, 92, 92, 92, 92, 92, 92, 92, 92, 92, 92, 92, 92, 92, 92, 92, 92, 92, 92, 92, 92, 92,
     215, 84, 41, 102, 124, 170, 18, 128, 204, 14, 168, 112, 193, 56, 68, 96, 91, 173, 220,
     84]
   = [78, 114, 171, 45, 125, 201, 123, 203, 152, 62, 85, 72, 245, 42, 99, 173, 158, 18, 44,
     220]"
  by (simp add: sha1_def words_outer_b wordBytes_def compress_7 compress_10)

lemma hmac_b:
  "hmacSha1
     [72, 101, 108, 108, 111, 33, 222, 173, 190, 239]
     [0, 0, 0, 0, 3, 96, 171, 34]
   = [78, 114, 171, 45, 125, 201, 123, 203, 152, 62, 85, 72, 245, 42, 99, 173, 158, 18, 44,
     220]"
  by (simp add: hmacSha1_def Let_def eval_nat_numeral sha1_inner_b sha1_outer_b)

lemma code_b: "hmacSha1Code ''JBSWY3DPEHPK3PXP'' 56666914 = 1965712301"
  by (simp add: hmacSha1Code_def key_a bigEndian8_def hmac_b dynamicTruncation_def)

lemma rfc6238_test_vector:
  "hmacSha1Code ''GEZDGNBVGY3TQOJQGEZDGNBVGY3TQOJQ'' (timeStep 59) mod 100000000 = 94287082
   \<and> totp hmacSha1Code ''GEZDGNBVGY3TQOJQGEZDGNBVGY3TQOJQ'' 59 = ''287082''"
  by (simp add: totp_def hotp_def timeStep_def code_rfc sixDigits_def digitChar_def)

lemma totp_at_a: "totp hmacSha1Code ''JBSWY3DPEHPK3PXP'' 1700005500 = ''712301''"
  by (simp add: totp_def hotp_def timeStep_def code_a sixDigits_def digitChar_def)

lemma totp_at_b: "totp hmacSha1Code ''JBSWY3DPEHPK3PXP'' 1700007420 = ''712301''"
  by (simp add: totp_def hotp_def timeStep_def code_b sixDigits_def digitChar_def)

lemma verify_at_a: "totpVerify hmacSha1Code ''JBSWY3DPEHPK3PXP'' ''712301'' 1700005500 2"
  unfolding totpVerify_iff using totp_at_a
  by (intro exI [of _ "timeStep 1700005500"]) (simp add: totp_def)

lemma verify_at_b: "totpVerify hmacSha1Code ''JBSWY3DPEHPK3PXP'' ''712301'' 1700007420 2"
  unfolding totpVerify_iff using totp_at_b
  by (intro exI [of _ "timeStep 1700007420"]) (simp add: totp_def)

lemma strip_712301: "stripNonDigits ''712301'' = ''712301''"
  by (simp add: stripNonDigits_def isDigit_def)

subsection \<open>Sample values\<close>

lemma sampleState_eq:
  "sampleState = \<lparr> pendingSetups =
        [(''S1'', \<lparr> setupUsername = ''alice'', setupSecret = ''JBSWY3DPEHPK3PXP'',
                   setupTimestamp = 1700005400000 \<rparr>)],
      userSecrets = [], timers = [(1700007200000, ''S1'')] \<rparr>"
  by (simp add: sampleState_def generateSecret_def cleanupUserSetups_def emptyState_def
      sampleSecret_def setupTTL_def)

subsection \<open>Admission of requests\<close>

text \<open>
  Whatever the list of public paths, a request that no local route answers, whose session
  is not authenticated and whose path does not start with \<open>/auth\<close>, is redirected to
  the login page: the redirect middleware stands in front of the smart proxy gate.
\<close>

lemma unauthenticated_redirected:
  assumes "\<not> statusRouteHandles r" and "\<not> authRouterHandles r"
    and "\<not> authenticated (reqSession r)" and "\<not> startsWith (reqPath r) ''/auth''"
  shows "handleRequest publicPaths r = Redirect ''/auth/login''"
  using assms by (simp add: handleRequest_def authRedirect_def)

text \<open>
  Claim C1 says that a request on a public path is forwarded to the upstream target for
  every session, authenticated or not, and is never redirected to the login page.  The
  application does otherwise: with \<open>/public\<close> in the list of public paths, the path
  \<open>/public/x\<close> is public and the smart proxy gate lets an anonymous \<open>GET /public/x\<close>
  pass, but the request never reaches that gate; the redirect middleware mounted before
  it answers with a redirect to \<open>/auth/login\<close>.  The same holds with the default list.
\<close>

theorem public_path_unauthenticated_redirected:
  "isPublicPath [''/public''] ''/public/x''
   \<and> smartProxyGate [''/public''] (anonymousGet ''/public/x'') = None
   \<and> handleRequest [''/public''] (anonymousGet ''/public/x'') = Redirect ''/auth/login''
   \<and> handleRequest defaultPublicPaths (anonymousGet ''/public/x'') = Redirect ''/auth/login''"
  by code_simp

text \<open>
  The three requests of the specification's scenario C, with \<open>/public\<close> as the only
  public path and an anonymous session: all three are redirected, the one on the public
  path and the one that asks for JSON (which the smart proxy gate alone would refuse with
  401) included.  With an authenticated session the public path is forwarded.
\<close>

lemma scenario_C:
  "handleRequest [''/public''] (anonymousGet ''/public/x'') = Redirect ''/auth/login''
   \<and> handleRequest [''/public''] (anonymousGet ''/private'') = Redirect ''/auth/login''
   \<and> handleRequest [''/public'']
         ((anonymousGet ''/private'')\<lparr> reqAccept := Some ''application/json'' \<rparr>)
       = Redirect ''/auth/login''
   \<and> smartProxyGate [''/public'']
         ((anonymousGet ''/private'')\<lparr> reqAccept := Some ''application/json'' \<rparr>)
       = Some UnauthorizedJson
   \<and> handleRequest [''/public'']
         ((anonymousGet ''/public/x'')\<lparr> reqSession := freshSession\<lparr> authenticated := True \<rparr> \<rparr>)
       = Forward"
  by code_simp

text \<open>
  Claim C2 says that a WebSocket upgrade on a non-public path from an unauthenticated
  session is refused with status 401, never redirected and never forwarded.  The smart
  proxy gate has this branch, and on its own it answers 401; but in the middleware stack
  the redirect middleware comes first and redirects the handshake to \<open>/auth/login\<close>,
  and the listener for the server's \<open>upgrade\<close> event, which is where Node delivers a
  handshake, forwards it to the upstream target without looking at any session.
\<close>

theorem websocket_upgrade_unauthenticated:
  "smartProxyGate defaultPublicPaths
       ((anonymousGet ''/private'')\<lparr> reqUpgrade := Some ''websocket'' \<rparr>)
     = Some UnauthorizedEnd
   \<and> handleRequest defaultPublicPaths
       ((anonymousGet ''/private'')\<lparr> reqUpgrade := Some ''websocket'' \<rparr>)
     = Redirect ''/auth/login''
   \<and> handleUpgrade
       ((anonymousGet ''/private'')\<lparr> reqUpgrade := Some ''websocket'' \<rparr>)
     = Forward"
  by code_simp

subsection \<open>Expiry of a pending setup\<close>

text \<open>
  \<open>completeMFASetup\<close> looks the setup id up and reads neither the clock nor the
  \<open>timestamp\<close> of the setup before it answers; a pending setup leaves the registry
  when its timer callback runs, when its user begins another setup, or when it is
  completed.  So what ends a setup after 30 minutes is the run of its callback, and with
  an event loop that is on time, where the callbacks due by \<open>t\<close> have run before a call
  made at \<open>t\<close>, a setup created at \<open>t0\<close> is not found by a call made later than
  \<open>t0\<close> plus 30 minutes.
\<close>

lemma expired_setup_not_found_on_time:
  assumes "st1 = snd (generateSecret t0 setupId secret uname st0)"
    and "neverIssues setupId evs"
    and "t0 + setupTTL < t"
  shows "completeMFASetup H t (fireTimers t (run H evs st1)) setupId token
           = Inr (Failure ''Invalid or expired setup'', fireTimers t (run H evs st1), [])"
proof -
  have "hasTimer setupId (t0 + setupTTL) st1"
    unfolding assms(1) by (rule hasTimer_generate)
  then have "hasTimer setupId (t0 + setupTTL) (run H evs st1)"
    using assms(2) by (rule hasTimer_run)
  moreover have "t0 + setupTTL \<le> t"
    using assms(3) by simp
  ultimately have "map_of (pendingSetups (fireTimers t (run H evs st1))) setupId = None"
    by (rule expired_absent)
  then show ?thesis by (rule complete_absent)
qed




subsection \<open>One pending setup per user\<close>

text \<open>What the invariant means for lookups: two setup ids that are pending for the same
  username are the same id.\<close>

lemma invariant_unique:
  assumes "setupInvariant st"
    and "map_of (pendingSetups st) k1 = Some e1" and "map_of (pendingSetups st) k2 = Some e2"
    and "setupUsername e1 = setupUsername e2"
  shows "k1 = k2"
proof -
  let ?g = "\<lambda>(setupId :: string, entry). setupUsername entry"
  from assms(1) have "inj_on ?g (set (pendingSetups st))"
    by (simp add: setupInvariant_def distinct_map)
  moreover have "?g (k1, e1) = ?g (k2, e2)"
    using assms(4) by simp
  moreover have "(k1, e1) \<in> set (pendingSetups st)"
    using assms(2) by (rule map_of_SomeD)
  moreover have "(k2, e2) \<in> set (pendingSetups st)"
    using assms(3) by (rule map_of_SomeD)
  ultimately have "(k1, e1) = (k2, e2)" by (rule inj_onD)
  then show ?thesis by simp
qed

text \<open>
  Claim C4: every operation of the setup registry keeps at most one pending setup per
  username.  The invariant holds in the empty registry and is kept by
  \<open>generateSecret\<close>, by \<open>completeMFASetup\<close> (whatever it returns), by
  \<open>cleanupUserSetups\<close>, by the expiry timers, and so by every call that reaches the
  manager.  In particular: after \<open>generateSecret\<close> has run for a user with the id
  \<open>setupId1\<close> and later again for the same user with another id, \<open>completeMFASetup\<close>
  on \<open>setupId1\<close> returns \<open>{success: false, error: 'Invalid or expired setup'}\<close>,
  for every token and whatever other calls were made in between and afterwards, as long
  as none of them brings \<open>setupId1\<close> into the registry again.
\<close>

theorem one_pending_setup_per_user:
  "setupInvariant emptyState
   \<and> (setupInvariant st \<longrightarrow>
        setupInvariant (snd (generateSecret now setupId secret uname st))
        \<and> (case completeMFASetup H now st setupId token of
              Inl e \<Rightarrow> True
            | Inr (res, st', calls) \<Rightarrow> setupInvariant st')
        \<and> setupInvariant (snd (cleanupUserSetups uname st))
        \<and> setupInvariant (fireTimers now st)
        \<and> setupInvariant (applyEvent H now ev st))
   \<and> (setupId1 \<noteq> setupId2 \<and> neverIssues setupId1 evs1 \<and> neverIssues setupId1 evs2 \<longrightarrow>
        (let st1 = snd (generateSecret t1 setupId1 secret1 uname st);
             st2 = snd (generateSecret t2 setupId2 secret2 uname (run H evs1 st1));
             st3 = run H evs2 st2
         in completeMFASetup H t3 st3 setupId1 token
              = Inr (Failure ''Invalid or expired setup'', st3, [])))"
proof (intro conjI impI)
  show "setupInvariant emptyState"
    by (simp add: setupInvariant_def emptyState_def)
next
  assume "setupInvariant st"
  then show "setupInvariant (snd (generateSecret now setupId secret uname st))"
    by (rule invariant_generate)
next
  assume "setupInvariant st"
  then show "case completeMFASetup H now st setupId token of
              Inl e \<Rightarrow> True
            | Inr (res, st', calls) \<Rightarrow> setupInvariant st'"
    by (auto split: sum.splits dest: invariant_complete)
next
  assume "setupInvariant st"
  then show "setupInvariant (snd (cleanupUserSetups uname st))" by (rule invariant_cleanup)
next
  assume "setupInvariant st"
  then show "setupInvariant (fireTimers now st)" by (rule invariant_fireTimers)
next
  assume "setupInvariant st"
  then show "setupInvariant (applyEvent H now ev st)" by (rule invariant_applyEvent)
next
  assume a: "setupId1 \<noteq> setupId2 \<and> neverIssues setupId1 evs1 \<and> neverIssues setupId1 evs2"
  define st1 where "st1 = snd (generateSecret t1 setupId1 secret1 uname st)"
  define st2 where "st2 = snd (generateSecret t2 setupId2 secret2 uname (run H evs1 st1))"
  define st3 where "st3 = run H evs2 st2"
  have "ownedOrAbsent setupId1 uname st1"
    unfolding st1_def by (rule owned_generate)
  with a have "ownedOrAbsent setupId1 uname (run H evs1 st1)"
    by (simp add: ownedOrAbsent_run)
  with a have "map_of (pendingSetups st2) setupId1 = None"
    unfolding st2_def by (intro superseded_generate) auto
  with a have "map_of (pendingSetups st3) setupId1 = None"
    unfolding st3_def by (simp add: absent_run)
  then have "completeMFASetup H t3 st3 setupId1 token
              = Inr (Failure ''Invalid or expired setup'', st3, [])"
    by (rule complete_absent)
  then show "let st1 = snd (generateSecret t1 setupId1 secret1 uname st);
             st2 = snd (generateSecret t2 setupId2 secret2 uname (run H evs1 st1));
             st3 = run H evs2 st2
         in completeMFASetup H t3 st3 setupId1 token
              = Inr (Failure ''Invalid or expired setup'', st3, [])"
    by (simp add: st1_def st2_def st3_def)
qed

text \<open>
  An instance: alice has the pending setup \<open>S1\<close>; she begins a second setup \<open>S2\<close>,
  and the registry still satisfies the invariant.  With a failed verification before the
  second setup and a cleanup for bob after it, the code that is correct for her secret at
  1700005500000 ms no longer completes \<open>S1\<close>.
\<close>

theorem one_pending_setup_per_user_witness:
  "setupInvariant sampleState
   \<and> setupInvariant
        (snd (generateSecret 1700005460000 ''S2'' sampleSecret ''alice'' sampleState))
   \<and> setupInvariant (snd (cleanupUserSetups ''alice'' sampleState))
   \<and> setupInvariant (fireTimers 1700005460000 sampleState)
   \<and> setupInvariant
        (applyEvent hmacSha1Code 1700005460000 (EvGenerate ''S2'' sampleSecret ''alice'')
           sampleState)
   \<and> ''S1'' \<noteq> ''S2''
   \<and> neverIssues ''S1'' [(1700005430000, EvVerify ''alice'' (Some ''123456''))]
   \<and> neverIssues ''S1'' [(1700005490000, EvCleanup ''bob'')]
   \<and> completeMFASetup hmacSha1Code 1700005500000
        (run hmacSha1Code [(1700005490000, EvCleanup ''bob'')]
          (snd (generateSecret 1700005460000 ''S2'' sampleSecret ''alice''
            (run hmacSha1Code [(1700005430000, EvVerify ''alice'' (Some ''123456''))]
              (snd (generateSecret 1700005400000 ''S1'' sampleSecret ''alice''
                 emptyState))))))
        ''S1'' (Some ''712301'')
      = Inr (Failure ''Invalid or expired setup'',
          run hmacSha1Code [(1700005490000, EvCleanup ''bob'')]
            (snd (generateSecret 1700005460000 ''S2'' sampleSecret ''alice''
              (run hmacSha1Code [(1700005430000, EvVerify ''alice'' (Some ''123456''))]
                (snd (generateSecret 1700005400000 ''S1'' sampleSecret ''alice''
                   emptyState))))),
          [])"
proof -
  have h1: "setupInvariant sampleState"
    by (simp add: sampleState_eq setupInvariant_def)
  have h2: "''S1'' \<noteq> ''S2''
            \<and> neverIssues ''S1'' [(1700005430000, EvVerify ''alice'' (Some ''123456''))]
            \<and> neverIssues ''S1'' [(1700005490000, EvCleanup ''bob'')]"
    by (simp add: neverIssues_def)
  show ?thesis
    using h1 h2
      one_pending_setup_per_user [where st = sampleState and now = 1700005460000
        and H = hmacSha1Code and setupId = "''S2''" and secret = sampleSecret
        and uname = "''alice''" and ev = "EvGenerate ''S2'' sampleSecret ''alice''"]
      one_pending_setup_per_user [where st = emptyState and H = hmacSha1Code
        and ?setupId1.0 = "''S1''" and ?setupId2.0 = "''S2''"
        and ?evs1.0 = "[(1700005430000, EvVerify ''alice'' (Some ''123456''))]"
        and ?evs2.0 = "[(1700005490000, EvCleanup ''bob'')]"
        and ?t1.0 = 1700005400000 and ?t2.0 = 1700005460000 and ?t3.0 = 1700005500000
        and ?secret1.0 = sampleSecret and ?secret2.0 = sampleSecret
        and uname = "''alice''" and token = "Some ''712301''"]
    by (simp add: Let_def)
qed

subsection \<open>The acceptance window\<close>

text \<open>
  No keyed hash whatever makes verification reject every code from outside the window:
  there are only a million codes, so among the steps 0, 3, 6, ... up to three million two
  have the same code, and the code of the one is accepted at the other although they are
  at least three steps apart.
\<close>

lemma no_hash_rejects_outside_window:
  "\<not> (\<exists>H. \<forall>secret t_gen t_ver.
         (timeStep t_ver - 2 \<le> timeStep t_gen \<and> timeStep t_gen \<le> timeStep t_ver + 2
            \<longrightarrow> totpVerify H secret (totp H secret t_gen) t_ver 2)
         \<and> (\<not> (timeStep t_ver - 2 \<le> timeStep t_gen \<and> timeStep t_gen \<le> timeStep t_ver + 2)
            \<longrightarrow> \<not> totpVerify H secret (totp H secret t_gen) t_ver 2))"
proof
  assume "\<exists>H. \<forall>secret t_gen t_ver.
         (timeStep t_ver - 2 \<le> timeStep t_gen \<and> timeStep t_gen \<le> timeStep t_ver + 2
            \<longrightarrow> totpVerify H secret (totp H secret t_gen) t_ver 2)
         \<and> (\<not> (timeStep t_ver - 2 \<le> timeStep t_gen \<and> timeStep t_gen \<le> timeStep t_ver + 2)
            \<longrightarrow> \<not> totpVerify H secret (totp H secret t_gen) t_ver 2)"
  then obtain H where rej: "\<And>secret t_gen t_ver.
         \<not> (timeStep t_ver - 2 \<le> timeStep t_gen \<and> timeStep t_gen \<le> timeStep t_ver + 2)
         \<Longrightarrow> \<not> totpVerify H secret (totp H secret t_gen) t_ver 2"
    by blast
  obtain i j where ij: "i < j" and eq: "hotp H [] (int (3 * i)) = hotp H [] (int (3 * j))"
    using hotp_collision [of H "[]"] by blast
  have "\<not> (timeStep (90 * j) - 2 \<le> timeStep (90 * i)
            \<and> timeStep (90 * i) \<le> timeStep (90 * j) + 2)"
    using ij by (simp add: timeStep_90)
  then have "\<not> totpVerify H [] (totp H [] (90 * i)) (90 * j) 2"
    by (rule rej)
  moreover have "totpVerify H [] (totp H [] (90 * i)) (90 * j) 2"
    unfolding totpVerify_iff totp_def timeStep_90 using eq
    by (intro exI [of _ "int (3 * j)"]) simp
  ultimately show False by contradiction
qed

text \<open>
  Claim C5 says that the code generated at step \<open>s\<close> is accepted with window 2 at
  every time whose step lies in \<open>[s - 2, s + 2]\<close> and rejected at every time whose step
  lies outside.  It fails for the secret \<open>JBSWY3DPEHPK3PXP\<close>: the code generated at
  second 1700005500 (step 56666850) is 712301, and it is accepted at second 1700007420
  (step 56666914, 64 steps later), where the code is 712301 again; \<open>verifyToken\<close>
  returns \<open>true\<close> on it.
\<close>

theorem totp_rejection_outside_window_fails:
  "\<not> (timeStep 1700007420 - 2 \<le> timeStep 1700005500
        \<and> timeStep 1700005500 \<le> timeStep 1700007420 + 2)
   \<and> totp hmacSha1Code ''JBSWY3DPEHPK3PXP'' 1700005500 = ''712301''
   \<and> totpVerify hmacSha1Code ''JBSWY3DPEHPK3PXP''
        (totp hmacSha1Code ''JBSWY3DPEHPK3PXP'' 1700005500) 1700007420 2
   \<and> verifyToken hmacSha1Code 1700007420000 enrolledState ''alice''
        (Some (generateCurrentToken hmacSha1Code 1700005500000 ''JBSWY3DPEHPK3PXP''))
      = Inr (True, enrolledState,
             [TotpVerify ''JBSWY3DPEHPK3PXP'' ''712301'' 1700007420 2,
              TotpGenerate ''JBSWY3DPEHPK3PXP'' 1700007420])"
proof -
  have "\<not> (timeStep 1700007420 - 2 \<le> timeStep 1700005500
        \<and> timeStep 1700005500 \<le> timeStep 1700007420 + 2)"
    by (simp add: timeStep_def)
  moreover have "verifyToken hmacSha1Code 1700007420000 enrolledState ''alice''
        (Some (generateCurrentToken hmacSha1Code 1700005500000 ''JBSWY3DPEHPK3PXP''))
      = Inr (True, enrolledState,
             [TotpVerify ''JBSWY3DPEHPK3PXP'' ''712301'' 1700007420 2,
              TotpGenerate ''JBSWY3DPEHPK3PXP'' 1700007420])"
    using verify_at_b
    by (simp add: verifyToken_def generateCurrentToken_def enrolledState_def totp_at_a
        strip_712301)
  ultimately show ?thesis
    using totp_at_a verify_at_b by simp
qed

text \<open>
  Claim C5 as the engine has it: the code generated at time \<open>t_gen\<close> is accepted with
  window 2 at every time \<open>t_ver\<close> whose step lies within two steps of the step of
  \<open>t_gen\<close>; and at any time whatever it is accepted exactly when it is the code of one
  of the five steps around the step of \<open>t_ver\<close>, so outside the window it is rejected
  unless it coincides with one of those five codes.  For a user with a stored secret,
  \<open>verifyToken\<close> returns on the code of \<open>generateCurrentToken\<close> what the engine
  says.
\<close>

theorem totp_window_acceptance:
  "(timeStep t_ver - 2 \<le> timeStep t_gen \<and> timeStep t_gen \<le> timeStep t_ver + 2
      \<longrightarrow> totpVerify H secret (totp H secret t_gen) t_ver 2)
   \<and> (totpVerify H secret (totp H secret t_gen) t_ver 2 \<longleftrightarrow>
        (\<exists>c. timeStep t_ver - 2 \<le> c \<and> c \<le> timeStep t_ver + 2 \<and>
             hotp H secret c = totp H secret t_gen))
   \<and> (map_of (userSecrets st) uname = Some secret \<and> secret \<noteq> [] \<longrightarrow>
        verifyToken H now_ver st uname (Some (generateCurrentToken H now_gen secret))
          = Inr (totpVerify H secret (totp H secret (now_gen div 1000)) (now_ver div 1000) 2,
                 st,
                 [TotpVerify secret (totp H secret (now_gen div 1000)) (now_ver div 1000) 2,
                  TotpGenerate secret (now_ver div 1000)]))"
proof (intro conjI impI)
  assume "timeStep t_ver - 2 \<le> timeStep t_gen \<and> timeStep t_gen \<le> timeStep t_ver + 2"
  then show "totpVerify H secret (totp H secret t_gen) t_ver 2"
    by (auto simp add: totpVerify_iff totp_def)
next
  show "totpVerify H secret (totp H secret t_gen) t_ver 2 \<longleftrightarrow>
        (\<exists>c. timeStep t_ver - 2 \<le> c \<and> c \<le> timeStep t_ver + 2 \<and>
             hotp H secret c = totp H secret t_gen)"
    by (simp add: totpVerify_iff)
next
  assume a: "map_of (userSecrets st) uname = Some secret \<and> secret \<noteq> []"
  have "stripNonDigits (totp H secret (now_gen div 1000)) = totp H secret (now_gen div 1000)"
    by (simp add: totp_def strip_hotp)
  moreover have "length (totp H secret (now_gen div 1000)) = 6"
    by (simp add: totp_def length_hotp)
  ultimately show "verifyToken H now_ver st uname (Some (generateCurrentToken H now_gen secret))
          = Inr (totpVerify H secret (totp H secret (now_gen div 1000)) (now_ver div 1000) 2,
                 st,
                 [TotpVerify secret (totp H secret (now_gen div 1000)) (now_ver div 1000) 2,
                  TotpGenerate secret (now_ver div 1000)])"
    using a by (simp add: verifyToken_def generateCurrentToken_def Let_def)
qed

text \<open>An instance: the code generated at second 1700005500 (step 56666850) is accepted
  at second 1700005559 (step 56666851), by the engine and by \<open>verifyToken\<close>.\<close>

theorem totp_window_acceptance_witness:
  "timeStep 1700005559 - 2 \<le> timeStep 1700005500
   \<and> timeStep 1700005500 \<le> timeStep 1700005559 + 2
   \<and> totpVerify hmacSha1Code ''JBSWY3DPEHPK3PXP''
        (totp hmacSha1Code ''JBSWY3DPEHPK3PXP'' 1700005500) 1700005559 2
   \<and> map_of (userSecrets enrolledState) ''alice'' = Some ''JBSWY3DPEHPK3PXP''
   \<and> ''JBSWY3DPEHPK3PXP'' \<noteq> []
   \<and> verifyToken hmacSha1Code 1700005559000 enrolledState ''alice''
           (Some (generateCurrentToken hmacSha1Code 1700005500000 ''JBSWY3DPEHPK3PXP''))
         = Inr (True, enrolledState,
                [TotpVerify ''JBSWY3DPEHPK3PXP'' ''712301'' 1700005559 2,
                 TotpGenerate ''JBSWY3DPEHPK3PXP'' 1700005559])"
proof -
  have h: "timeStep 1700005559 - 2 \<le> timeStep 1700005500
           \<and> timeStep 1700005500 \<le> timeStep 1700005559 + 2"
    by (simp add: timeStep_def)
  have s: "map_of (userSecrets enrolledState) ''alice'' = Some ''JBSWY3DPEHPK3PXP''
           \<and> ''JBSWY3DPEHPK3PXP'' \<noteq> []"
    by (simp add: enrolledState_def)
  show ?thesis
    using h s totp_at_a
      totp_window_acceptance [of 1700005559 1700005500 hmacSha1Code "''JBSWY3DPEHPK3PXP''"
        enrolledState "''alice''" 1700005559000 1700005500000]
    by simp
qed

subsection \<open>Normalisation of the candidate token\<close>

text \<open>
  Claim C6: let \<open>d\<close> be the candidate \<open>c\<close> with every character that is not a digit
  removed.  If \<open>d\<close> has six digits, \<open>verifyToken\<close> and \<open>completeMFASetup\<close> return
  on \<open>c\<close> what they return on \<open>d\<close>.  If it has not, the candidate is turned down
  without an exception and without a call to the TOTP engine: \<open>verifyToken\<close> returns
  \<open>false\<close>, and \<open>completeMFASetup\<close>, for a setup that is pending, returns
  \<open>{success: false, error: 'Token must be 6 digits'}\<close>.  (The lookup of the setup comes
  before the token is read, so a setup id that is not pending is answered with
  \<open>'Invalid or expired setup'\<close> whatever the token.)
\<close>

theorem normalized_token:
  "(length (stripNonDigits c) = 6 \<longrightarrow>
      verifyToken H now st uname (Some c)
        = verifyToken H now st uname (Some (stripNonDigits c))
      \<and> completeMFASetup H now st setupId (Some c)
        = completeMFASetup H now st setupId (Some (stripNonDigits c)))
   \<and> (length (stripNonDigits c) \<noteq> 6 \<longrightarrow>
      verifyToken H now st uname (Some c) = Inr (False, st, [])
      \<and> (map_of (pendingSetups st) setupId \<noteq> None \<longrightarrow>
           completeMFASetup H now st setupId (Some c)
             = Inr (Failure ''Token must be 6 digits'', st, [])))"
  by (auto simp add: verifyToken_def completeMFASetup_def stripNonDigits_idem Let_def
      split: option.splits)

text \<open>An instance: \<open>71 2301\<close> is treated as \<open>712301\<close>, and \<open>71-230\<close>, which has
  five digits, is turned down.\<close>

theorem normalized_token_witness:
  "length (stripNonDigits ''71 2301'') = 6
   \<and> stripNonDigits ''71 2301'' = ''712301''
   \<and> verifyToken hmacSha1Code 1700005500000 enrolledState ''alice'' (Some ''71 2301'')
       = verifyToken hmacSha1Code 1700005500000 enrolledState ''alice'' (Some ''712301'')
   \<and> completeMFASetup hmacSha1Code 1700005500000 enrolledState ''S1'' (Some ''71 2301'')
       = completeMFASetup hmacSha1Code 1700005500000 enrolledState ''S1'' (Some ''712301'')
   \<and> length (stripNonDigits ''71-230'') \<noteq> 6
   \<and> map_of (pendingSetups enrolledState) ''S1'' \<noteq> None
   \<and> verifyToken hmacSha1Code 1700005500000 enrolledState ''alice'' (Some ''71-230'')
       = Inr (False, enrolledState, [])
   \<and> completeMFASetup hmacSha1Code 1700005500000 enrolledState ''S1'' (Some ''71-230'')
       = Inr (Failure ''Token must be 6 digits'', enrolledState, [])"
proof -
  have h1: "stripNonDigits ''71 2301'' = ''712301''"
    by (simp add: stripNonDigits_def isDigit_def)
  have h2: "length (stripNonDigits ''71-230'') \<noteq> 6"
    by (simp add: stripNonDigits_def isDigit_def)
  have h3: "map_of (pendingSetups enrolledState) ''S1'' \<noteq> None"
    by (simp add: enrolledState_def sampleState_eq)
  show ?thesis
    using h1 h2 h3
      normalized_token [of "''71 2301''" hmacSha1Code 1700005500000 enrolledState "''alice''"
        "''S1''"]
      normalized_token [of "''71-230''" hmacSha1Code 1700005500000 enrolledState "''alice''"
        "''S1''"]
    by simp
qed

subsection \<open>Completion of a setup\<close>

text \<open>
  Claim C7: when \<open>completeMFASetup\<close> returns success for a pending setup of user \<open>u\<close>
  with candidate secret \<open>s\<close>, the secret store maps \<open>u\<close> to \<open>s\<close> afterwards and the
  pending setup is gone; and the handler of \<open>POST /auth/mfa-setup\<close>, run for a session
  that has passed the password step and holds this setup id, answers with a redirect to
  \<open>/\<close> and leaves the session authenticated, with \<open>passwordVerified\<close> and
  \<open>mfaSetupId\<close> removed.
\<close>

theorem setup_completion_commits:
  assumes "map_of (pendingSetups st) setupId = Some entry"
    and "completeMFASetup H now st setupId token = Inr (Success, st', calls)"
  shows "map_of (userSecrets st') (setupUsername entry) = Some (setupSecret entry)
       \<and> map_of (pendingSetups st') setupId = None
       \<and> (passwordVerified sess \<and> mfaSetupId sess = Some setupId \<and> setupId \<noteq> [] \<longrightarrow>
            (\<exists>sess'. postMfaSetup H now st token sess = Inr (Redirect ''/'', sess', st')
               \<and> authenticated sess' \<and> \<not> passwordVerified sess' \<and> mfaSetupId sess' = None
               \<and> user sess' = username sess))"
proof -
  from assms have st': "st' = st\<lparr> userSecrets :=
        AList.update (setupUsername entry) (setupSecret entry) (userSecrets st),
      pendingSetups := AList.delete setupId (pendingSetups st) \<rparr>"
    by (auto simp add: completeMFASetup_def Let_def split: option.splits if_splits)
  have "map_of (userSecrets st') (setupUsername entry) = Some (setupSecret entry)"
    by (simp add: st' AList.update_conv')
  moreover have "map_of (pendingSetups st') setupId = None"
    by (simp add: st' AList.delete_conv')
  moreover have "passwordVerified sess \<and> mfaSetupId sess = Some setupId \<and> setupId \<noteq> [] \<longrightarrow>
      (\<exists>sess'. postMfaSetup H now st token sess = Inr (Redirect ''/'', sess', st')
         \<and> authenticated sess' \<and> \<not> passwordVerified sess' \<and> mfaSetupId sess' = None
         \<and> user sess' = username sess)"
    using assms(2) by (simp add: postMfaSetup_def truthy_def)
  ultimately show ?thesis by blast
qed

text \<open>An instance: alice completes her setup \<open>S1\<close> 100 seconds after it was created,
  with the code of that moment.\<close>

theorem setup_completion_commits_witness:
  "map_of (pendingSetups sampleState) ''S1''
     = Some \<lparr> setupUsername = ''alice'', setupSecret = ''JBSWY3DPEHPK3PXP'',
              setupTimestamp = 1700005400000 \<rparr>
   \<and> totp hmacSha1Code ''JBSWY3DPEHPK3PXP'' 1700005500 = ''712301''
   \<and> completeMFASetup hmacSha1Code 1700005500000 sampleState ''S1'' (Some ''712301'')
     = Inr (Success,
            \<lparr> pendingSetups = [], userSecrets = [(''alice'', ''JBSWY3DPEHPK3PXP'')],
              timers = [(1700007200000, ''S1'')] \<rparr>,
            [TotpVerify ''JBSWY3DPEHPK3PXP'' ''712301'' 1700005500 2])
   \<and> map_of (userSecrets \<lparr> pendingSetups = [],
              userSecrets = [(''alice'', ''JBSWY3DPEHPK3PXP'')],
              timers = [(1700007200000, ''S1'')] \<rparr>) ''alice'' = Some ''JBSWY3DPEHPK3PXP''
   \<and> (\<exists>sess'. postMfaSetup hmacSha1Code 1700005500000 sampleState (Some ''712301'')
           sampleSession
         = Inr (Redirect ''/'', sess',
                \<lparr> pendingSetups = [], userSecrets = [(''alice'', ''JBSWY3DPEHPK3PXP'')],
                  timers = [(1700007200000, ''S1'')] \<rparr>)
        \<and> authenticated sess' \<and> \<not> passwordVerified sess' \<and> mfaSetupId sess' = None
        \<and> user sess' = Some ''alice'')"
proof -
  have h1: "map_of (pendingSetups sampleState) ''S1''
     = Some \<lparr> setupUsername = ''alice'', setupSecret = ''JBSWY3DPEHPK3PXP'',
              setupTimestamp = 1700005400000 \<rparr>"
    by (simp add: sampleState_eq)
  have h2: "completeMFASetup hmacSha1Code 1700005500000 sampleState ''S1'' (Some ''712301'')
     = Inr (Success,
            \<lparr> pendingSetups = [], userSecrets = [(''alice'', ''JBSWY3DPEHPK3PXP'')],
              timers = [(1700007200000, ''S1'')] \<rparr>,
            [TotpVerify ''JBSWY3DPEHPK3PXP'' ''712301'' 1700005500 2])"
    using verify_at_a by (simp add: completeMFASetup_def sampleState_eq strip_712301)
  have h3: "passwordVerified sampleSession \<and> mfaSetupId sampleSession = Some ''S1''
            \<and> ''S1'' \<noteq> []"
    by (simp add: sampleSession_def)
  show ?thesis
    using h1 totp_at_a h2 h3 setup_completion_commits [OF h1 h2, of sampleSession]
    by (simp add: sampleSession_def)
qed

subsection \<open>Failed password submissions\<close>

text \<open>
  Claim C8: a password submission fails when the username is not the configured one or
  when the hash comparison does not return \<open>true\<close> (it may also raise).  Every failed
  submission is answered with the same redirect, to \<open>/auth/login?error=1\<close>, and leaves
  the session exactly as it was; so two failed submissions get the same response whatever
  made each of them fail.
\<close>

theorem failed_login_generic:
  assumes "uname \<noteq> Some validUsername \<or> bcryptCompare password validPasswordHash \<noteq> Inr True"
    and "uname' \<noteq> Some validUsername \<or> bcryptCompare password' validPasswordHash \<noteq> Inr True"
  shows "postLogin bcryptCompare validUsername validPasswordHash st uname password sess
           = (Redirect ''/auth/login?error=1'', sess)
       \<and> fst (postLogin bcryptCompare validUsername validPasswordHash st uname password sess)
           = fst (postLogin bcryptCompare validUsername validPasswordHash st uname' password' sess')"
  using assms by (auto simp add: postLogin_def split: sum.splits)

text \<open>An instance: a wrong username with the right password and the right username
  with a wrong password get the same answer; the right pair passes.\<close>

theorem failed_login_generic_witness:
  "postLogin sampleBcrypt ''admin'' ''hash of hunter2'' emptyState
       (Some ''mallory'') (Some ''hunter2'') freshSession
     = (Redirect ''/auth/login?error=1'', freshSession)
   \<and> postLogin sampleBcrypt ''admin'' ''hash of hunter2'' emptyState
       (Some ''admin'') (Some ''guess'') freshSession
     = (Redirect ''/auth/login?error=1'', freshSession)
   \<and> fst (postLogin sampleBcrypt ''admin'' ''hash of hunter2'' emptyState
       (Some ''mallory'') (Some ''hunter2'') freshSession)
     = fst (postLogin sampleBcrypt ''admin'' ''hash of hunter2'' emptyState
       (Some ''admin'') (Some ''guess'') freshSession)
   \<and> postLogin sampleBcrypt ''admin'' ''hash of hunter2'' emptyState
       (Some ''admin'') (Some ''hunter2'') freshSession
     = (Redirect ''/auth/mfa-setup'',
        freshSession\<lparr> passwordVerified := True, username := Some ''admin'' \<rparr>)"
proof -
  have h1: "Some ''mallory'' \<noteq> Some ''admin''
            \<or> sampleBcrypt (Some ''hunter2'') ''hash of hunter2'' \<noteq> Inr True"
    by simp
  have h2: "Some ''admin'' \<noteq> Some ''admin''
            \<or> sampleBcrypt (Some ''guess'') ''hash of hunter2'' \<noteq> Inr True"
    by (simp add: sampleBcrypt_def)
  have ok: "postLogin sampleBcrypt ''admin'' ''hash of hunter2'' emptyState
       (Some ''admin'') (Some ''hunter2'') freshSession
     = (Redirect ''/auth/mfa-setup'',
        freshSession\<lparr> passwordVerified := True, username := Some ''admin'' \<rparr>)"
    by (simp add: postLogin_def sampleBcrypt_def hasMFAEnabled_def emptyState_def)
  show ?thesis
    using ok
      failed_login_generic [where bcryptCompare = sampleBcrypt and validUsername = "''admin''"
        and validPasswordHash = "''hash of hunter2''"
        and uname = "Some ''mallory''" and password = "Some ''hunter2''"
        and uname' = "Some ''admin''" and password' = "Some ''guess''"
        and st = emptyState and sess = freshSession and sess' = freshSession, OF h1 h2]
      failed_login_generic [where bcryptCompare = sampleBcrypt and validUsername = "''admin''"
        and validPasswordHash = "''hash of hunter2''"
        and uname = "Some ''admin''" and password = "Some ''guess''"
        and uname' = "Some ''mallory''" and password' = "Some ''hunter2''"
        and st = emptyState and sess = freshSession and sess' = freshSession, OF h2 h1]
    by simp
qed

subsection \<open>Malformed configuration of the public paths\<close>

text \<open>
  When \<open>JSON.parse\<close> raises on \<open>PUBLIC_PATHS\<close>, \<open>getPublicPaths\<close> returns the
  default list, which is the documented one, and it does the same when the variable is
  unset or empty.  No input makes \<open>getPublicPaths\<close> raise: its only call that can
  raise is inside the \<open>try\<close>.
\<close>

lemma unparsable_public_paths_default:
  "(text \<noteq> [] \<and> JSON_parse text = Inl e \<longrightarrow>
      getPublicPaths JSON_parse (Some text) = JArray (map JString defaultPublicPaths))
   \<and> getPublicPaths JSON_parse None = JArray (map JString defaultPublicPaths)
   \<and> getPublicPaths JSON_parse (Some []) = JArray (map JString defaultPublicPaths)
   \<and> defaultPublicPaths =
        [''/api/auth'', ''/login'', ''/register'', ''/public'', ''/assets'', ''/static'',
         ''/favicon.ico'', ''/robots.txt'']"
  by (simp add: getPublicPaths_def defaultPublicPaths_def)

text \<open>An instance: a comma-separated list is not JSON.\<close>

lemma unparsable_public_paths_default_instance:
  "getPublicPaths sampleParse (Some ''/docs,/public'') = JArray (map JString defaultPublicPaths)
   \<and> getPublicPaths sampleParse (Some ''[]'') = JArray []"
  by (simp add: getPublicPaths_def sampleParse_def)

text \<open>On a list of strings \<open>isPublicPathJson\<close> is \<open>isPublicPath\<close>.\<close>

lemma isPublicPathJson_strings:
  "isPublicPathJson toStr (JArray (map JString paths)) p = Inr (isPublicPath paths p)"
  by (simp add: isPublicPathJson_def isPublicPath_def list_ex_iff)

text \<open>
  Claim C9 says that a \<open>PUBLIC_PATHS\<close> that is present but malformed makes the gate
  fall back to the default list, and that it never makes the startup fail.  The fallback
  is there for text that is not JSON only.  Text that is JSON but not a list of paths
  (\<open>null\<close>, \<open>5\<close>, a single string, an object) is malformed as a configuration of
  the public paths all the same, and \<open>getPublicPaths\<close> returns the parsed value as it
  is: there is no check of its shape.  The startup does not fail, but the list in use is
  not the default one, and on a value that is not an array every call of
  \<open>isPublicPath\<close>, one for each request that arrives at the smart proxy gate on a path
  it does not skip, raises a \<open>TypeError\<close>.
\<close>

theorem wrong_shape_public_paths_kept:
  "(text \<noteq> [] \<and> JSON_parse text = Inr v \<longrightarrow> getPublicPaths JSON_parse (Some text) = v)
   \<and> (\<not> isArray v \<longrightarrow>
        v \<noteq> JArray (map JString defaultPublicPaths)
        \<and> isPublicPathJson toStr v p = Inl TypeError)"
  by (cases v) (simp_all add: getPublicPaths_def isPublicPathJson_def)

text \<open>An instance: \<open>PUBLIC_PATHS=null\<close>, and the path \<open>/public/x\<close>, which is public
  under the default list; \<open>PUBLIC_PATHS=5\<close> is kept in the same way.\<close>

theorem wrong_shape_public_paths_kept_witness:
  "''null'' \<noteq> [] \<and> sampleParse ''null'' = Inr JNull \<and> \<not> isArray JNull
   \<and> getPublicPaths sampleParse (Some ''null'') = JNull
   \<and> getPublicPaths sampleParse (Some ''null'') \<noteq> JArray (map JString defaultPublicPaths)
   \<and> isPublicPathJson (\<lambda>v. ''null'') (getPublicPaths sampleParse (Some ''null'')) ''/public/x''
       = Inl TypeError
   \<and> isPublicPath defaultPublicPaths ''/public/x''
   \<and> getPublicPaths sampleParse (Some ''5'') = JNumber 5"
proof -
  have h: "''null'' \<noteq> [] \<and> sampleParse ''null'' = Inr JNull \<and> \<not> isArray JNull"
    by (simp add: sampleParse_def)
  have five: "getPublicPaths sampleParse (Some ''5'') = JNumber 5"
    by (simp add: getPublicPaths_def sampleParse_def)
  have pub: "isPublicPath defaultPublicPaths ''/public/x''"
    by code_simp
  show ?thesis
    using h five pub
      wrong_shape_public_paths_kept [of "''null''" sampleParse JNull "\<lambda>v. ''null''" "''/public/x''"]
    by simp
qed

subsection \<open>Verification without a stored secret\<close>

text \<open>
  Claim C10: for a username that has no entry in the secret store, \<open>verifyToken\<close>
  returns \<open>false\<close> for every token (a missing token included), makes no call to the
  TOTP engine, leaves the state as it is, and raises nothing.
\<close>

theorem missing_secret_verification_fails:
  "map_of (userSecrets st) uname = None \<Longrightarrow>
   verifyToken H now st uname token = Inr (False, st, [])"
  by (simp add: verifyToken_def)

text \<open>An instance: bob has no secret.\<close>

theorem missing_secret_verification_fails_witness:
  "map_of (userSecrets enrolledState) ''bob'' = None
   \<and> verifyToken hmacSha1Code 1700005500000 enrolledState ''bob'' (Some ''712301'')
       = Inr (False, enrolledState, [])
   \<and> verifyToken hmacSha1Code 1700005500000 enrolledState ''bob'' None
       = Inr (False, enrolledState, [])"
proof -
  have h: "map_of (userSecrets enrolledState) ''bob'' = None"
    by (simp add: enrolledState_def)
  show ?thesis
    using h
      missing_secret_verification_fails [OF h, of hmacSha1Code 1700005500000 "Some ''712301''"]
      missing_secret_verification_fails [OF h, of hmacSha1Code 1700005500000 None]
    by simp
qed

end
